theory Spec2Isabelle
  imports Complex_Main
begin

section \<open>Sequence alignment (setup\_gyrase\_model.py, generate\_alignment.py)\<close>

text \<open>
  Python strings are modelled as \<open>string\<close> (a list of characters), Python's unbounded
  integers as \<open>int\<close>. The scoring parameters are integers, as the defaults of
  \<^verbatim>\<open>needleman_wunsch\<close> and the constants of \<^verbatim>\<open>simple_align\<close> are.
  The score matrix is a list of rows that the loops update in place.
\<close>

type_synonym table = "int list list"

definition GAP :: char where
  "GAP = CHR ''-''"

text \<open>
  \<^verbatim>\<open>score = [[0] * (n + 1) for _ in range(m + 1)]\<close>, then the two loops that set the
  first column and the first row.
\<close>

definition init_table :: "nat \<Rightarrow> nat \<Rightarrow> int \<Rightarrow> table" where
  "init_table m n gap =
     (let score = replicate (m + 1) (replicate (n + 1) (0::int));
          score = fold (\<lambda>i sc. sc[i := (sc ! i)[0 := int i * gap]]) [0..<m + 1] score;
          score = fold (\<lambda>j sc. sc[0 := (sc ! 0)[j := int j * gap]]) [0..<n + 1] score
      in score)"

text \<open>The body of the inner fill loop: one assignment to \<^verbatim>\<open>score[i][j]\<close>.\<close>

definition fill_cell :: "string \<Rightarrow> string \<Rightarrow> int \<Rightarrow> int \<Rightarrow> int \<Rightarrow> nat \<Rightarrow> nat \<Rightarrow> table \<Rightarrow> table" where
  "fill_cell seq1 seq2 match mismatch gap i j score =
     (let match_score = score ! (i - 1) ! (j - 1)
                          + (if seq1 ! (i - 1) = seq2 ! (j - 1) then match else mismatch);
          delete = score ! (i - 1) ! j + gap;
          insert = score ! i ! (j - 1) + gap
      in score[i := (score ! i)[j := max (max match_score delete) insert]])"

text \<open>The two nested loops \<^verbatim>\<open>for i in range(1, m + 1): for j in range(1, n + 1)\<close>.\<close>

definition fill_matrix :: "string \<Rightarrow> string \<Rightarrow> int \<Rightarrow> int \<Rightarrow> int \<Rightarrow> table \<Rightarrow> table" where
  "fill_matrix seq1 seq2 match mismatch gap score =
     fold (\<lambda>i sc. fold (fill_cell seq1 seq2 match mismatch gap i) [1..<length seq2 + 1] sc)
          [1..<length seq1 + 1] score"

definition score_matrix :: "string \<Rightarrow> string \<Rightarrow> int \<Rightarrow> int \<Rightarrow> int \<Rightarrow> table" where
  "score_matrix seq1 seq2 match mismatch gap =
     fill_matrix seq1 seq2 match mismatch gap (init_table (length seq1) (length seq2) gap)"

text \<open>
  The traceback loop \<^verbatim>\<open>while i > 0 or j > 0\<close>. The two output lists grow by
  \<^verbatim>\<open>append\<close>. In the last branch the source reads \<^verbatim>\<open>seq2[j-1]\<close> and decrements
  \<open>j\<close>; at \<open>j = 0\<close> that would read \<^verbatim>\<open>seq2[-1]\<close> and leave the table, which the
  model records as \<open>None\<close> (\<open>needleman_wunsch_result\<close> below shows that the filled matrix
  never leads there).
\<close>

function traceback ::
  "table \<Rightarrow> string \<Rightarrow> string \<Rightarrow> int \<Rightarrow> int \<Rightarrow> int \<Rightarrow> nat \<Rightarrow> nat \<Rightarrow> string \<Rightarrow> string
     \<Rightarrow> (string \<times> string) option" where
  "traceback score seq1 seq2 match mismatch gap i j aligned1 aligned2 =
     (if i > 0 \<or> j > 0 then
        if i > 0 \<and> j > 0 \<and>
           score ! i ! j = score ! (i - 1) ! (j - 1)
                             + (if seq1 ! (i - 1) = seq2 ! (j - 1) then match else mismatch)
        then traceback score seq1 seq2 match mismatch gap (i - 1) (j - 1)
               (aligned1 @ [seq1 ! (i - 1)]) (aligned2 @ [seq2 ! (j - 1)])
        else if i > 0 \<and> score ! i ! j = score ! (i - 1) ! j + gap
        then traceback score seq1 seq2 match mismatch gap (i - 1) j
               (aligned1 @ [seq1 ! (i - 1)]) (aligned2 @ [GAP])
        else if j > 0
        then traceback score seq1 seq2 match mismatch gap i (j - 1)
               (aligned1 @ [GAP]) (aligned2 @ [seq2 ! (j - 1)])
        else None
      else Some (aligned1, aligned2))"
  by pat_completeness auto
termination
  by (relation "measure (\<lambda>(score, seq1, seq2, match, mismatch, gap, i, j, a1, a2). i + j)") auto

declare traceback.simps [simp del]

text \<open>\<^verbatim>\<open>needleman_wunsch(seq1, seq2, match=2, mismatch=-1, gap=-2)\<close> of setup\_gyrase\_model.py.\<close>

definition needleman_wunsch ::
  "string \<Rightarrow> string \<Rightarrow> int \<Rightarrow> int \<Rightarrow> int \<Rightarrow> (string \<times> string) option" where
  "needleman_wunsch seq1 seq2 match mismatch gap =
     (let m = length seq1; n = length seq2;
          score = score_matrix seq1 seq2 match mismatch gap
      in case traceback score seq1 seq2 match mismatch gap m n [] [] of
           None \<Rightarrow> None
         | Some (aligned1, aligned2) \<Rightarrow> Some (rev aligned1, rev aligned2))"

text \<open>
  \<^verbatim>\<open>simple_align(seq1, seq2)\<close> of generate\_alignment.py: the same three phases, written
  out again in the source with the scoring parameters as local constants.
\<close>

definition simple_align :: "string \<Rightarrow> string \<Rightarrow> (string \<times> string) option" where
  "simple_align seq1 seq2 =
     (let match_score = 2; mismatch_score = - 1; gap_penalty = - 2;
          m = length seq1; n = length seq2;
          score = score_matrix seq1 seq2 match_score mismatch_score gap_penalty
      in case traceback score seq1 seq2 match_score mismatch_score gap_penalty m n [] [] of
           None \<Rightarrow> None
         | Some (aligned1, aligned2) \<Rightarrow> Some (rev aligned1, rev aligned2))"

text \<open>\<^verbatim>\<open>s.replace('-', '')\<close>: the string without its gap characters.\<close>

definition remove_gaps :: "string \<Rightarrow> string" where
  "remove_gaps s = filter (\<lambda>c. c \<noteq> GAP) s"

text \<open>
  \<^verbatim>\<open>calculate_identity\<close> of setup\_gyrase\_model.py. Python's float division is taken as
  exact division of reals; the \<^verbatim>\<open>else\<close> branch returns the integer 0.
\<close>

definition calculate_identity :: "string \<Rightarrow> string \<Rightarrow> real" where
  "calculate_identity aligned1 aligned2 =
     (let matches = sum_list (map (\<lambda>_. 1::nat) (filter (\<lambda>(a, b). a = b \<and> a \<noteq> GAP) (zip aligned1 aligned2)));
          length' = length (remove_gaps aligned1)
      in if length' > 0 then real matches / real length' * 100 else 0)"

text \<open>
  \<^verbatim>\<open>calculate_identity\<close> of generate\_alignment.py, which divides by the longer of the
  two ungapped lengths.
\<close>

definition calculate_identity_ga :: "string \<Rightarrow> string \<Rightarrow> real" where
  "calculate_identity_ga aligned1 aligned2 =
     (let matches = sum_list (map (\<lambda>_. 1::nat) (filter (\<lambda>(a, b). a = b \<and> a \<noteq> GAP) (zip aligned1 aligned2)));
          length' = max (length (remove_gaps aligned1)) (length (remove_gaps aligned2))
      in if length' > 0 then real matches / real length' * 100 else 0)"

section \<open>Rigid superposition (structural\_alignment.py, assemble\_tetramer.py)\<close>

text \<open>
  Floating-point numbers are modelled as reals, a point as a triple and a 3 by 3 matrix as
  the triple of its rows. A point set is the list of rows from which the callers build the
  array with \<^verbatim>\<open>np.array\<close>; the empty list gives an array of shape \<^verbatim>\<open>(0,)\<close>.
  The exceptions that numpy raises on shapes it cannot combine are values of \<open>np_error\<close>.
\<close>

type_synonym vec3 = "real \<times> real \<times> real"
type_synonym mat3 = "vec3 \<times> vec3 \<times> vec3"

datatype np_error = ValueError | LinAlgError | AxisError

text \<open>Subtraction of points, and \<^verbatim>\<open>np.mean(P, axis=0)\<close>.\<close>

fun vsub :: "vec3 \<Rightarrow> vec3 \<Rightarrow> vec3" where
  "vsub (a, b, c) (d, e, f) = (a - d, b - e, c - f)"

definition mean_axis0 :: "vec3 list \<Rightarrow> vec3" where
  "mean_axis0 P =
     (sum_list (map fst P) / real (length P),
      sum_list (map (fst \<circ> snd) P) / real (length P),
      sum_list (map (snd \<circ> snd) P) / real (length P))"

text \<open>\<^verbatim>\<open>P.T @ Q\<close> for two arrays of \<open>N\<close> rows: entry \<open>(a, b)\<close> sums \<open>P[k][a] * Q[k][b]\<close>.\<close>

definition matT_mul :: "vec3 list \<Rightarrow> vec3 list \<Rightarrow> mat3" where
  "matT_mul P Q =
     (let entry = (\<lambda>f g. sum_list (map (\<lambda>(p, q). f p * g q) (zip P Q)));
          x = fst; y = fst \<circ> snd; z = snd \<circ> snd
      in ((entry x x, entry x y, entry x z),
          (entry y x, entry y y, entry y z),
          (entry z x, entry z y, entry z z)))"

text \<open>Transpose, matrix product, matrix times vector, \<^verbatim>\<open>np.linalg.det\<close>, and \<^verbatim>\<open>Vt[-1, :] *= -1\<close>.\<close>

fun transpose3 :: "mat3 \<Rightarrow> mat3" where
  "transpose3 ((a, b, c), (d, e, f), (g, h, i)) = ((a, d, g), (b, e, h), (c, f, i))"

fun mat_mul :: "mat3 \<Rightarrow> mat3 \<Rightarrow> mat3" where
  "mat_mul ((a, b, c), (d, e, f), (g, h, i)) ((a', b', c'), (d', e', f'), (g', h', i')) =
     ((a * a' + b * d' + c * g', a * b' + b * e' + c * h', a * c' + b * f' + c * i'),
      (d * a' + e * d' + f * g', d * b' + e * e' + f * h', d * c' + e * f' + f * i'),
      (g * a' + h * d' + i * g', g * b' + h * e' + i * h', g * c' + h * f' + i * i'))"

fun mat_vec :: "mat3 \<Rightarrow> vec3 \<Rightarrow> vec3" where
  "mat_vec ((a, b, c), (d, e, f), (g, h, i)) (x, y, z) =
     (a * x + b * y + c * z, d * x + e * y + f * z, g * x + h * y + i * z)"

fun det3 :: "mat3 \<Rightarrow> real" where
  "det3 ((a, b, c), (d, e, f), (g, h, i)) =
     a * (e * i - f * h) - b * (d * i - f * g) + c * (d * h - e * g)"

fun negate_last_row :: "mat3 \<Rightarrow> mat3" where
  "negate_last_row (r1, r2, (g, h, i)) = (r1, r2, (- g, - h, - i))"

text \<open>
  The body that \<^verbatim>\<open>kabsch_align\<close> and \<^verbatim>\<open>extract_transformation\<close> share line for line:
  centroids, centring, cross-covariance, decomposition, reflection correction, rotation
  and translation. \<^verbatim>\<open>np.linalg.svd\<close> is library code and enters as the parameter
  \<open>svd\<close>, which returns \<open>(U, S, Vt)\<close>.
\<close>

definition kabsch_core :: "(mat3 \<Rightarrow> mat3 \<times> vec3 \<times> mat3) \<Rightarrow> vec3 list \<Rightarrow> vec3 list \<Rightarrow> mat3 \<times> vec3" where
  "kabsch_core svd P Q =
     (let centroid_P = mean_axis0 P;
          centroid_Q = mean_axis0 Q;
          P_centered = map (\<lambda>p. vsub p centroid_P) P;
          Q_centered = map (\<lambda>q. vsub q centroid_Q) Q;
          H = matT_mul P_centered Q_centered;
          (U, S, Vt) = svd H;
          d = det3 (mat_mul (transpose3 Vt) (transpose3 U));
          Vt = (if d < 0 then negate_last_row Vt else Vt);
          R = mat_mul (transpose3 Vt) (transpose3 U);
          t = vsub centroid_Q (mat_vec R centroid_P)
      in (R, t))"

text \<open>
  \<^verbatim>\<open>kabsch_align(P, Q)\<close>. The function checks nothing itself. With different numbers of
  rows the product \<^verbatim>\<open>P_centered.T @ Q_centered\<close> raises \<^verbatim>\<open>ValueError\<close>; with two
  empty arrays that product is a scalar, which \<^verbatim>\<open>np.linalg.svd\<close> rejects with
  \<^verbatim>\<open>LinAlgError\<close>.
\<close>

definition kabsch_align ::
  "(mat3 \<Rightarrow> mat3 \<times> vec3 \<times> mat3) \<Rightarrow> vec3 list \<Rightarrow> vec3 list \<Rightarrow> np_error + mat3 \<times> vec3" where
  "kabsch_align svd P Q =
     (if length P \<noteq> length Q then Inl ValueError
      else if P = [] then Inl LinAlgError
      else Inr (kabsch_core svd P Q))"

text \<open>
  \<^verbatim>\<open>extract_transformation\<close>, from the two coordinate arrays that \<^verbatim>\<open>get_ca_coords\<close>
  returns (reading the PDB lines is outside the model). Both arrays are cut to the shorter
  length first; when that length is 0 the decomposition raises \<^verbatim>\<open>LinAlgError\<close>.
\<close>

definition extract_transformation ::
  "(mat3 \<Rightarrow> mat3 \<times> vec3 \<times> mat3) \<Rightarrow> vec3 list \<Rightarrow> vec3 list \<Rightarrow> np_error + mat3 \<times> vec3" where
  "extract_transformation svd ca_A ca_C =
     (let min_len = min (length ca_A) (length ca_C);
          ca_A = take min_len ca_A;
          ca_C = take min_len ca_C
      in if min_len = 0 then Inl LinAlgError
         else Inr (kabsch_core svd ca_A ca_C))"




section \<open>Interface contacts (generate\_constraints.py, analyze\_models.py)\<close>

text \<open>
  A Python dict is modelled by the list of its items in insertion order. The keys of a
  dict are pairwise distinct, so indexing it with one of its own keys returns the value
  stored with that key and cannot raise \<^verbatim>\<open>KeyError\<close>; the loops of the source are
  therefore loops over the items. The nested dict is chain to residue number to atom name
  to coordinates.
\<close>

type_synonym atoms = "(string \<times> vec3) list"
type_synonym residues = "(int \<times> atoms) list"
type_synonym coords = "(string \<times> residues) list"

text \<open>One entry of the result list: the dict with these seven keys.\<close>

record contact =
  chain1 :: string
  res1 :: int
  atom1 :: string
  chain2 :: string
  res2 :: int
  atom2 :: string
  distance :: real

fun calculate_distance :: "vec3 \<Rightarrow> vec3 \<Rightarrow> real" where
  "calculate_distance (x1, y1, z1) (x2, y2, z2) =
     sqrt ((x1 - x2)\<^sup>2 + (y1 - y2)\<^sup>2 + (z1 - z2)\<^sup>2)"

definition backbone :: "string list" where
  "backbone = [''CA'', ''CB'', ''N'', ''C'', ''O'']"

text \<open>
  \<^verbatim>\<open>find_interface_contacts(coords, distance_cutoff)\<close>. The result list is appended to in
  loop order. The loop variables carry an underscore where the source's name is also a key
  of the result dict.
\<close>

definition find_interface_contacts :: "coords \<Rightarrow> real \<Rightarrow> contact list" where
  "find_interface_contacts coords distance_cutoff =
     (case coords of
        (chain_a, residues_a) # (chain_b, residues_b) # _ \<Rightarrow>
          [\<lparr>chain1 = chain_a, res1 = res_1, atom1 = atom_1,
            chain2 = chain_b, res2 = res_2, atom2 = atom_2,
            distance = calculate_distance coord_1 coord_2\<rparr>.
             (res_1, atoms_1) \<leftarrow> residues_a,
             (atom_1, coord_1) \<leftarrow> atoms_1,
             atom_1 \<in> set backbone,
             (res_2, atoms_2) \<leftarrow> residues_b,
             (atom_2, coord_2) \<leftarrow> atoms_2,
             atom_2 \<in> set backbone,
             calculate_distance coord_1 coord_2 < distance_cutoff]
      | _ \<Rightarrow> [])"

text \<open>
  \<^verbatim>\<open>identify_interface_residues\<close> of analyze\_models.py, from the two lists of
  \<^verbatim>\<open>(res_num, x, y, z)\<close> that its first loop reads from the PDB file (reading the file
  is outside the model). The two sets collect the residue numbers of every close pair and
  are returned sorted.
\<close>

definition identify_interface_residues ::
  "(int \<times> real \<times> real \<times> real) list \<Rightarrow> (int \<times> real \<times> real \<times> real) list \<Rightarrow> real
     \<Rightarrow> int list \<times> int list" where
  "identify_interface_residues chain_a_atoms chain_b_atoms distance_cutoff =
     (let close = [(res_a, res_b).
                     (res_a, xa, ya, za) \<leftarrow> chain_a_atoms,
                     (res_b, xb, yb, zb) \<leftarrow> chain_b_atoms,
                     sqrt ((xa - xb)\<^sup>2 + (ya - yb)\<^sup>2 + (za - zb)\<^sup>2) < distance_cutoff];
          interface_a = set (map fst close);
          interface_b = set (map snd close)
      in (sorted_list_of_set interface_a, sorted_list_of_set interface_b))"

section \<open>Notions used to state and prove the properties\<close>

text \<open>
  Re-scoring an alignment column by column: the gap penalty for a column that holds a gap,
  the match or mismatch score for a column of two symbols.
\<close>

definition column_score :: "int \<Rightarrow> int \<Rightarrow> int \<Rightarrow> char \<times> char \<Rightarrow> int" where
  "column_score match mismatch gap col =
     (if fst col = GAP \<or> snd col = GAP then gap
      else if fst col = snd col then match else mismatch)"

definition rescore :: "int \<Rightarrow> int \<Rightarrow> int \<Rightarrow> string \<Rightarrow> string \<Rightarrow> int" where
  "rescore match mismatch gap aligned1 aligned2 =
     sum_list (map (column_score match mismatch gap) (zip aligned1 aligned2))"

text \<open>
  Identity as the specification words it: equal non-gap columns over the columns in which
  neither symbol is a gap, and 0 when there is no such column.
\<close>

definition spec_identity :: "string \<Rightarrow> string \<Rightarrow> real" where
  "spec_identity aligned1 aligned2 =
     (let equal_columns = length (filter (\<lambda>(a, b). a = b \<and> a \<noteq> GAP) (zip aligned1 aligned2));
          ungapped_columns = length (filter (\<lambda>(a, b). a \<noteq> GAP \<and> b \<noteq> GAP) (zip aligned1 aligned2))
      in if ungapped_columns = 0 then 0 else real equal_columns / real ungapped_columns)"

text \<open>The recurrence that the fill loops compute, as a function of the cell.\<close>

fun nw :: "string \<Rightarrow> string \<Rightarrow> int \<Rightarrow> int \<Rightarrow> int \<Rightarrow> nat \<Rightarrow> nat \<Rightarrow> int" where
  "nw s1 s2 mt mm gp 0 j = int j * gp"
| "nw s1 s2 mt mm gp (Suc i) 0 = int (Suc i) * gp"
| "nw s1 s2 mt mm gp (Suc i) (Suc j) =
     max (max (nw s1 s2 mt mm gp i j + (if s1 ! i = s2 ! j then mt else mm))
              (nw s1 s2 mt mm gp i (Suc j) + gp))
         (nw s1 s2 mt mm gp (Suc i) j + gp)"

text \<open>The shape of the table, and the cells that the loops have already filled.\<close>

definition dims :: "nat \<Rightarrow> nat \<Rightarrow> table \<Rightarrow> bool" where
  "dims m n T \<longleftrightarrow> length T = m + 1 \<and> (\<forall>i \<le> m. length (T ! i) = n + 1)"

definition cells_ok :: "string \<Rightarrow> string \<Rightarrow> int \<Rightarrow> int \<Rightarrow> int \<Rightarrow> nat \<Rightarrow> nat \<Rightarrow> table \<Rightarrow> bool" where
  "cells_ok s1 s2 mt mm gp i k T \<longleftrightarrow>
     dims (length s1) (length s2) T \<and>
     (\<forall>i' j'. i' \<le> length s1 \<longrightarrow> j' \<le> length s2 \<longrightarrow>
        (i' < i \<or> (i' = i \<and> j' < k) \<or> j' = 0) \<longrightarrow> T ! i' ! j' = nw s1 s2 mt mm gp i' j')"

text \<open>What a traceback started at cell \<open>(i, j)\<close> has appended when it ends.\<close>

definition tb_ok :: "string \<Rightarrow> string \<Rightarrow> int \<Rightarrow> int \<Rightarrow> int \<Rightarrow> nat \<Rightarrow> nat \<Rightarrow> string \<Rightarrow> string \<Rightarrow> bool" where
  "tb_ok s1 s2 mt mm gp i j t1 t2 \<longleftrightarrow>
     length t1 = length t2 \<and>
     remove_gaps (rev t1) = remove_gaps (take i s1) \<and>
     remove_gaps (rev t2) = remove_gaps (take j s2) \<and>
     (GAP \<notin> set s1 \<and> GAP \<notin> set s2 \<longrightarrow> rescore mt mm gp t1 t2 = nw s1 s2 mt mm gp i j)"

text \<open>
  The contract of the singular value decomposition that the superposition relies on: both
  outer factors are orthogonal matrices.
\<close>

definition identity3 :: mat3 where
  "identity3 = ((1, 0, 0), (0, 1, 0), (0, 0, 1))"

definition orthogonal3 :: "mat3 \<Rightarrow> bool" where
  "orthogonal3 M \<longleftrightarrow> mat_mul M (transpose3 M) = identity3"

definition svd_orthogonal :: "(mat3 \<Rightarrow> mat3 \<times> vec3 \<times> mat3) \<Rightarrow> bool" where
  "svd_orthogonal svd \<longleftrightarrow> (\<forall>H. orthogonal3 (fst (svd H)) \<and> orthogonal3 (snd (snd (svd H))))"

section \<open>The score matrix\<close>

lemma nw_col0: "nw s1 s2 mt mm gp i 0 = int i * gp"
  by (cases i) simp_all

lemma fold_upt_inv:
  assumes base: "P a T"
    and step: "\<And>i T. a \<le> i \<Longrightarrow> i < b \<Longrightarrow> P i T \<Longrightarrow> P (Suc i) (f i T)"
    and le: "a \<le> b"
  shows "P b (fold f [a..<b] T)"
proof -
  have "c \<le> b \<Longrightarrow> a \<le> c \<Longrightarrow> P c (fold f [a..<c] T)" for c
  proof (induction c)
    case 0
    then show ?case using base by simp
  next
    case (Suc c)
    show ?case
    proof (cases "a = Suc c")
      case True
      then show ?thesis using base by simp
    next
      case False
      with Suc.prems have ac: "a \<le> c" by simp
      from Suc.prems have cb: "c < b" by simp
      have "P c (fold f [a..<c] T)" using Suc.IH ac cb by simp
      then have "P (Suc c) (f c (fold f [a..<c] T))" using step ac cb by blast
      then show ?thesis using ac by simp
    qed
  qed
  then show ?thesis using le by blast
qed

lemma dims_update:
  assumes "dims m n T" "i \<le> m"
  shows "dims m n (T[i := (T ! i)[j := v]])"
  using assms unfolding dims_def by (auto simp: nth_list_update)

lemma nth_update2:
  assumes "dims m n T" "i \<le> m" "j \<le> n" "i' \<le> m" "j' \<le> n"
  shows "T[i := (T ! i)[j := v]] ! i' ! j' = (if i' = i \<and> j' = j then v else T ! i' ! j')"
  using assms unfolding dims_def by (auto simp: nth_list_update)

lemma dims_replicate: "dims m n (replicate (m + 1) (replicate (n + 1) x))"
  unfolding dims_def by (auto simp: nth_replicate simp del: replicate_Suc)

lemma init_col:
  "dims m n (fold (\<lambda>i sc. sc[i := (sc ! i)[0 := int i * gap]]) [0..<m + 1]
              (replicate (m + 1) (replicate (n + 1) 0))) \<and>
   (\<forall>i \<le> m. fold (\<lambda>i sc. sc[i := (sc ! i)[0 := int i * gap]]) [0..<m + 1]
              (replicate (m + 1) (replicate (n + 1) 0)) ! i ! 0 = int i * gap)"
proof -
  let ?f = "\<lambda>i sc. sc[i := (sc ! i)[0 := int i * gap]]"
  let ?P = "\<lambda>k T. dims m n T \<and> (\<forall>i < k. T ! i ! 0 = int i * gap)"
  have "?P (m + 1) (fold ?f [0..<m + 1] (replicate (m + 1) (replicate (n + 1) 0)))"
  proof (rule fold_upt_inv [where P = ?P])
    show "?P 0 (replicate (m + 1) (replicate (n + 1) 0))"
      using dims_replicate by simp
  next
    fix i T assume i: "0 \<le> i" "i < m + 1" and P: "?P i T"
    then have d: "dims m n T" and im: "i \<le> m" by auto
    have "dims m n (?f i T)" using dims_update [OF d im] .
    moreover have "\<forall>i' < Suc i. ?f i T ! i' ! 0 = int i' * gap"
    proof (intro allI impI)
      fix i' assume "i' < Suc i"
      then have "i' \<le> m" using im by simp
      from nth_update2 [OF d im _ this, of 0 0 "int i * gap"]
      show "?f i T ! i' ! 0 = int i' * gap" using P \<open>i' < Suc i\<close>
        by (auto simp: less_Suc_eq)
    qed
    ultimately show "?P (Suc i) (?f i T)" by blast
  qed simp
  then show ?thesis by (auto simp: less_Suc_eq_le)
qed

lemma init_table_ok:
  "dims m n (init_table m n gap) \<and>
   (\<forall>i \<le> m. init_table m n gap ! i ! 0 = int i * gap) \<and>
   (\<forall>j \<le> n. init_table m n gap ! 0 ! j = int j * gap)"
proof -
  let ?g = "\<lambda>j sc. sc[0 := (sc ! 0)[j := int j * gap]]"
  define T0 where "T0 = fold (\<lambda>i sc. sc[i := (sc ! i)[0 := int i * gap]]) [0..<m + 1]
              (replicate (m + 1) (replicate (n + 1) (0::int)))"
  have T0: "dims m n T0" "\<forall>i \<le> m. T0 ! i ! 0 = int i * gap"
    using init_col [of m n gap] unfolding T0_def by blast+
  let ?P = "\<lambda>k T. dims m n T \<and> (\<forall>i \<le> m. T ! i ! 0 = int i * gap) \<and> (\<forall>j < k. T ! 0 ! j = int j * gap)"
  have "?P (n + 1) (fold ?g [0..<n + 1] T0)"
  proof (rule fold_upt_inv [where P = ?P])
    show "?P 0 T0" using T0 by simp
  next
    fix j T assume j: "0 \<le> j" "j < n + 1" and P: "?P j T"
    then have d: "dims m n T" and jn: "j \<le> n" by auto
    have upd: "i' \<le> m \<Longrightarrow> j' \<le> n \<Longrightarrow>
        ?g j T ! i' ! j' = (if i' = 0 \<and> j' = j then int j * gap else T ! i' ! j')" for i' j'
      using nth_update2 [OF d _ jn, of 0 i' j' "int j * gap"] by simp
    have "dims m n (?g j T)" using dims_update [OF d, of 0] by simp
    moreover have "\<forall>i \<le> m. ?g j T ! i ! 0 = int i * gap"
      using upd P by auto
    moreover have "\<forall>j' < Suc j. ?g j T ! 0 ! j' = int j' * gap"
      using upd P jn by (auto simp: less_Suc_eq)
    ultimately show "?P (Suc j) (?g j T)" by blast
  qed simp
  moreover have "init_table m n gap = fold ?g [0..<n + 1] T0"
    unfolding init_table_def T0_def Let_def ..
  ultimately show ?thesis by (auto simp: less_Suc_eq_le)
qed

lemma init_cells_ok:
  "cells_ok s1 s2 mt mm gp 1 1 (init_table (length s1) (length s2) gp)"
  using init_table_ok [of "length s1" "length s2" gp]
  unfolding cells_ok_def by (auto simp: nw_col0)

lemma fill_cell_ok:
  assumes ok: "cells_ok s1 s2 mt mm gp i k T"
    and i: "1 \<le> i" "i \<le> length s1" and k: "1 \<le> k" "k \<le> length s2"
  shows "cells_ok s1 s2 mt mm gp i (Suc k) (fill_cell s1 s2 mt mm gp i k T)"
proof -
  from ok have d: "dims (length s1) (length s2) T" unfolding cells_ok_def by simp
  obtain i0 k0 where ik: "i = Suc i0" "k = Suc k0" using i k by (cases i; cases k) auto
  have c1: "T ! i0 ! k0 = nw s1 s2 mt mm gp i0 k0"
    and c2: "T ! i0 ! k = nw s1 s2 mt mm gp i0 k"
    and c3: "T ! i ! k0 = nw s1 s2 mt mm gp i k0"
    using ok i k ik unfolding cells_ok_def by auto
  define v where "v = max (max (T ! i0 ! k0 + (if s1 ! i0 = s2 ! k0 then mt else mm))
                               (T ! i0 ! k + gp)) (T ! i ! k0 + gp)"
  have v: "v = nw s1 s2 mt mm gp i k"
    unfolding v_def c1 c2 c3 by (simp add: ik)
  have fc: "fill_cell s1 s2 mt mm gp i k T = T[i := (T ! i)[k := v]]"
    unfolding fill_cell_def v_def Let_def by (simp add: ik)
  have "dims (length s1) (length s2) (T[i := (T ! i)[k := v]])"
    using dims_update [OF d i(2)] .
  moreover have "T[i := (T ! i)[k := v]] ! i' ! j' = nw s1 s2 mt mm gp i' j'"
    if "i' \<le> length s1" "j' \<le> length s2" "i' < i \<or> (i' = i \<and> j' < Suc k) \<or> j' = 0" for i' j'
    using nth_update2 [OF d i(2) k(2) that(1,2), of v] that(3) ok that(1,2) v k
    unfolding cells_ok_def by (auto simp: less_Suc_eq)
  ultimately show ?thesis unfolding fc cells_ok_def by blast
qed

lemma cells_ok_next_row:
  assumes "cells_ok s1 s2 mt mm gp i (length s2 + 1) T"
  shows "cells_ok s1 s2 mt mm gp (Suc i) 1 T"
  unfolding cells_ok_def
proof (intro conjI allI impI)
  show "dims (length s1) (length s2) T" using assms unfolding cells_ok_def by simp
next
  fix i' j'
  assume b: "i' \<le> length s1" "j' \<le> length s2"
    and c: "i' < Suc i \<or> i' = Suc i \<and> j' < 1 \<or> j' = 0"
  then have "i' < i \<or> (i' = i \<and> j' < length s2 + 1) \<or> j' = 0" by auto
  with assms b show "T ! i' ! j' = nw s1 s2 mt mm gp i' j'"
    unfolding cells_ok_def by blast
qed

lemma cells_ok_all:
  assumes "cells_ok s1 s2 mt mm gp (length s1 + 1) 1 T" "i \<le> length s1" "j \<le> length s2"
  shows "T ! i ! j = nw s1 s2 mt mm gp i j"
proof -
  have "i < length s1 + 1" using assms(2) by simp
  with assms show ?thesis unfolding cells_ok_def by blast
qed

lemma fill_row_ok:
  assumes ok: "cells_ok s1 s2 mt mm gp i 1 T" and i: "1 \<le> i" "i \<le> length s1"
  shows "cells_ok s1 s2 mt mm gp (Suc i) 1
           (fold (fill_cell s1 s2 mt mm gp i) [1..<length s2 + 1] T)"
proof (rule cells_ok_next_row, rule fold_upt_inv [where P = "cells_ok s1 s2 mt mm gp i"])
  show "cells_ok s1 s2 mt mm gp i 1 T" by (rule ok)
next
  fix k T' assume "1 \<le> k" "k < length s2 + 1" "cells_ok s1 s2 mt mm gp i k T'"
  then show "cells_ok s1 s2 mt mm gp i (Suc k) (fill_cell s1 s2 mt mm gp i k T')"
    using fill_cell_ok [of s1 s2 mt mm gp i k T'] i by simp
next
  show "1 \<le> length s2 + 1" by simp
qed

lemma score_matrix_cells_ok:
  "cells_ok s1 s2 mt mm gp (length s1 + 1) 1 (score_matrix s1 s2 mt mm gp)"
  unfolding score_matrix_def fill_matrix_def
proof (rule fold_upt_inv [where P = "\<lambda>i. cells_ok s1 s2 mt mm gp i 1"])
  show "cells_ok s1 s2 mt mm gp 1 1 (init_table (length s1) (length s2) gp)"
    by (rule init_cells_ok)
next
  fix i T assume "1 \<le> i" "i < length s1 + 1" "cells_ok s1 s2 mt mm gp i 1 T"
  then show "cells_ok s1 s2 mt mm gp (Suc i) 1
               (fold (fill_cell s1 s2 mt mm gp i) [1..<length s2 + 1] T)"
    using fill_row_ok [of s1 s2 mt mm gp i T] by simp
next
  show "1 \<le> length s1 + 1" by simp
qed

lemma score_matrix_nw:
  assumes "i \<le> length s1" "j \<le> length s2"
  shows "score_matrix s1 s2 mt mm gp ! i ! j = nw s1 s2 mt mm gp i j"
  using cells_ok_all [OF score_matrix_cells_ok assms] .

section \<open>The traceback\<close>

lemma nw_left:
  assumes "0 < j"
    and "\<not> (0 < i \<and> nw s1 s2 mt mm gp i j =
            nw s1 s2 mt mm gp (i - 1) (j - 1) + (if s1 ! (i - 1) = s2 ! (j - 1) then mt else mm))"
    and "\<not> (0 < i \<and> nw s1 s2 mt mm gp i j = nw s1 s2 mt mm gp (i - 1) j + gp)"
  shows "nw s1 s2 mt mm gp i j = nw s1 s2 mt mm gp i (j - 1) + gp"
proof -
  obtain j0 where j: "j = Suc j0" using assms(1) by (cases j) auto
  show ?thesis
  proof (cases i)
    case 0
    then show ?thesis by (simp add: j algebra_simps)
  next
    case (Suc i0)
    with assms(2,3) j show ?thesis by (simp add: max_def split: if_splits)
  qed
qed

lemma rescore_rev:
  "length a1 = length a2 \<Longrightarrow> rescore mt mm gp (rev a1) (rev a2) = rescore mt mm gp a1 a2"
  unfolding rescore_def by (metis zip_rev rev_map sum_list_rev)

lemma tb_ok_diag:
  assumes "tb_ok s1 s2 mt mm gp (i - 1) (j - 1) t1 t2" "0 < i" "0 < j" "i \<le> length s1" "j \<le> length s2"
    and "nw s1 s2 mt mm gp i j =
            nw s1 s2 mt mm gp (i - 1) (j - 1) + (if s1 ! (i - 1) = s2 ! (j - 1) then mt else mm)"
  shows "tb_ok s1 s2 mt mm gp i j (s1 ! (i - 1) # t1) (s2 ! (j - 1) # t2)"
proof -
  obtain i0 j0 where ij: "i = Suc i0" "j = Suc j0" using assms(2,3) by (cases i; cases j) auto
  have lt: "i0 < length s1" "j0 < length s2" using assms(4,5) ij by auto
  have ng: "GAP \<notin> set s1 \<Longrightarrow> s1 ! i0 \<noteq> GAP" "GAP \<notin> set s2 \<Longrightarrow> s2 ! j0 \<noteq> GAP"
    using lt nth_mem by metis+
  show ?thesis using assms(1,6) lt ng unfolding tb_ok_def ij
    by (auto simp: take_Suc_conv_app_nth remove_gaps_def rescore_def column_score_def)
qed

lemma tb_ok_up:
  assumes "tb_ok s1 s2 mt mm gp (i - 1) j t1 t2" "0 < i" "i \<le> length s1"
    and "nw s1 s2 mt mm gp i j = nw s1 s2 mt mm gp (i - 1) j + gp"
  shows "tb_ok s1 s2 mt mm gp i j (s1 ! (i - 1) # t1) (GAP # t2)"
proof -
  obtain i0 where ij: "i = Suc i0" using assms(2) by (cases i) auto
  have lt: "i0 < length s1" using assms(3) ij by auto
  show ?thesis using assms(1,4) lt unfolding tb_ok_def ij
    by (auto simp: take_Suc_conv_app_nth remove_gaps_def rescore_def column_score_def)
qed

lemma tb_ok_left:
  assumes "tb_ok s1 s2 mt mm gp i (j - 1) t1 t2" "0 < j" "j \<le> length s2"
    and "nw s1 s2 mt mm gp i j = nw s1 s2 mt mm gp i (j - 1) + gp"
  shows "tb_ok s1 s2 mt mm gp i j (GAP # t1) (s2 ! (j - 1) # t2)"
proof -
  obtain j0 where ij: "j = Suc j0" using assms(2) by (cases j) auto
  have lt: "j0 < length s2" using assms(3) ij by auto
  show ?thesis using assms(1,4) lt unfolding tb_ok_def ij
    by (auto simp: take_Suc_conv_app_nth remove_gaps_def rescore_def column_score_def)
qed

lemma traceback_stop:
  assumes "\<not> (0 < i \<or> 0 < j)"
  shows "traceback sc s1 s2 mt mm gp i j a1 a2 = Some (a1, a2)"
  by (subst traceback.simps, simp only: if_not_P [OF assms])

lemma traceback_diag:
  assumes "0 < i \<or> 0 < j"
    and "0 < i \<and> 0 < j \<and> sc ! i ! j = sc ! (i - 1) ! (j - 1)
                  + (if s1 ! (i - 1) = s2 ! (j - 1) then mt else mm)"
  shows "traceback sc s1 s2 mt mm gp i j a1 a2 =
         traceback sc s1 s2 mt mm gp (i - 1) (j - 1) (a1 @ [s1 ! (i - 1)]) (a2 @ [s2 ! (j - 1)])"
  by (subst traceback.simps, simp only: if_P [OF assms(1)] if_P [OF assms(2)])

lemma traceback_up:
  assumes "0 < i \<or> 0 < j"
    and "\<not> (0 < i \<and> 0 < j \<and> sc ! i ! j = sc ! (i - 1) ! (j - 1)
                  + (if s1 ! (i - 1) = s2 ! (j - 1) then mt else mm))"
    and "0 < i \<and> sc ! i ! j = sc ! (i - 1) ! j + gp"
  shows "traceback sc s1 s2 mt mm gp i j a1 a2 =
         traceback sc s1 s2 mt mm gp (i - 1) j (a1 @ [s1 ! (i - 1)]) (a2 @ [GAP])"
  by (subst traceback.simps, simp only: if_P [OF assms(1)] if_not_P [OF assms(2)] if_P [OF assms(3)])

lemma traceback_left:
  assumes "0 < i \<or> 0 < j"
    and "\<not> (0 < i \<and> 0 < j \<and> sc ! i ! j = sc ! (i - 1) ! (j - 1)
                  + (if s1 ! (i - 1) = s2 ! (j - 1) then mt else mm))"
    and "\<not> (0 < i \<and> sc ! i ! j = sc ! (i - 1) ! j + gp)"
    and "0 < j"
  shows "traceback sc s1 s2 mt mm gp i j a1 a2 =
         traceback sc s1 s2 mt mm gp i (j - 1) (a1 @ [GAP]) (a2 @ [s2 ! (j - 1)])"
  by (subst traceback.simps, simp only: if_P [OF assms(1)] if_not_P [OF assms(2)] if_not_P [OF assms(3)] if_P [OF assms(4)])

lemma traceback_props:
  assumes T: "\<forall>i \<le> length s1. \<forall>j \<le> length s2. T ! i ! j = nw s1 s2 mt mm gp i j"
  shows "i \<le> length s1 \<Longrightarrow> j \<le> length s2 \<Longrightarrow>
    \<exists>t1 t2. traceback T s1 s2 mt mm gp i j a1 a2 = Some (a1 @ t1, a2 @ t2)
           \<and> tb_ok s1 s2 mt mm gp i j t1 t2"
  using T
proof (induction T s1 s2 mt mm gp i j a1 a2 rule: traceback.induct)
  case (1 T s1 s2 mt mm gp i j a1 a2)
  have le: "i \<le> length s1" "j \<le> length s2" using "1.prems" by simp_all
  have cell: "\<And>i' j'. i' \<le> i \<Longrightarrow> j' \<le> j \<Longrightarrow> T ! i' ! j' = nw s1 s2 mt mm gp i' j'"
    using "1.prems" by simp
  let ?diag = "0 < i \<and> 0 < j \<and> T ! i ! j = T ! (i - 1) ! (j - 1)
                  + (if s1 ! (i - 1) = s2 ! (j - 1) then mt else mm)"
  let ?up = "0 < i \<and> T ! i ! j = T ! (i - 1) ! j + gp"
  show ?case
  proof (cases "0 < i \<or> 0 < j")
    case False
    then have "traceback T s1 s2 mt mm gp i j a1 a2 = Some (a1 @ [], a2 @ [])"
      using traceback_stop [OF False] by simp
    moreover have "tb_ok s1 s2 mt mm gp i j [] []"
      using False by (simp add: tb_ok_def rescore_def)
    ultimately show ?thesis by blast
  next
    case nz: True
    show ?thesis
    proof (cases ?diag)
      case True
      from "1.IH"(1) [OF nz True] "1.prems"
      obtain t1 t2 where r: "traceback T s1 s2 mt mm gp (i - 1) (j - 1)
             (a1 @ [s1 ! (i - 1)]) (a2 @ [s2 ! (j - 1)])
             = Some ((a1 @ [s1 ! (i - 1)]) @ t1, (a2 @ [s2 ! (j - 1)]) @ t2)"
        and ok: "tb_ok s1 s2 mt mm gp (i - 1) (j - 1) t1 t2"
        by force
      have "traceback T s1 s2 mt mm gp i j a1 a2
              = Some (a1 @ (s1 ! (i - 1) # t1), a2 @ (s2 ! (j - 1) # t2))"
        using traceback_diag [OF nz True] r by simp
      moreover have "tb_ok s1 s2 mt mm gp i j (s1 ! (i - 1) # t1) (s2 ! (j - 1) # t2)"
        using tb_ok_diag [OF ok _ _ le] True cell [of i j] cell [of "i - 1" "j - 1"] by simp
      ultimately show ?thesis by blast
    next
      case nd: False
      show ?thesis
      proof (cases ?up)
        case True
        from "1.IH"(2) [OF nz nd True] "1.prems"
        obtain t1 t2 where r: "traceback T s1 s2 mt mm gp (i - 1) j
               (a1 @ [s1 ! (i - 1)]) (a2 @ [GAP])
               = Some ((a1 @ [s1 ! (i - 1)]) @ t1, (a2 @ [GAP]) @ t2)"
          and ok: "tb_ok s1 s2 mt mm gp (i - 1) j t1 t2"
          by force
        have "traceback T s1 s2 mt mm gp i j a1 a2
                = Some (a1 @ (s1 ! (i - 1) # t1), a2 @ (GAP # t2))"
          using traceback_up [OF nz nd True] r by simp
        moreover have "tb_ok s1 s2 mt mm gp i j (s1 ! (i - 1) # t1) (GAP # t2)"
          using tb_ok_up [OF ok _ le(1)] True cell [of i j] cell [of "i - 1" j] by simp
        ultimately show ?thesis by blast
      next
        case nu: False
        have jpos: "0 < j"
        proof (rule ccontr)
          assume "\<not> 0 < j"
          then have j0: "j = 0" and ipos: "0 < i" using nz by auto
          have "T ! i ! 0 = T ! (i - 1) ! 0 + gp"
            using cell [of i 0] cell [of "i - 1" 0] ipos j0
            by (cases i) (simp_all add: nw_col0 algebra_simps)
          with nu ipos j0 show False by simp
        qed
        from "1.IH"(3) [OF nz nd nu jpos] "1.prems"
        obtain t1 t2 where r: "traceback T s1 s2 mt mm gp i (j - 1)
               (a1 @ [GAP]) (a2 @ [s2 ! (j - 1)])
               = Some ((a1 @ [GAP]) @ t1, (a2 @ [s2 ! (j - 1)]) @ t2)"
          and ok: "tb_ok s1 s2 mt mm gp i (j - 1) t1 t2"
          by force
        have "traceback T s1 s2 mt mm gp i j a1 a2
                = Some (a1 @ (GAP # t1), a2 @ (s2 ! (j - 1) # t2))"
          using traceback_left [OF nz nd nu jpos] r by simp
        moreover have "nw s1 s2 mt mm gp i j = nw s1 s2 mt mm gp i (j - 1) + gp"
          using nw_left [OF jpos, of i s1 s2 mt mm gp] nd nu jpos
            cell [of i j] cell [of "i - 1" j] cell [of "i - 1" "j - 1"]
          by auto
        then have "tb_ok s1 s2 mt mm gp i j (GAP # t1) (s2 ! (j - 1) # t2)"
          using tb_ok_left [OF ok jpos le(2)] by simp
        ultimately show ?thesis by blast
      qed
    qed
  qed
qed

lemma remove_gaps_id: "GAP \<notin> set s \<Longrightarrow> remove_gaps s = s"
  unfolding remove_gaps_def by (induction s) auto

lemma score_matrix_cells:
  "\<forall>i \<le> length s1. \<forall>j \<le> length s2.
     score_matrix s1 s2 mt mm gp ! i ! j = nw s1 s2 mt mm gp i j"
  using score_matrix_nw by blast

lemma traceback_full:
  "\<exists>t1 t2. traceback (score_matrix s1 s2 mt mm gp) s1 s2 mt mm gp (length s1) (length s2) [] []
             = Some (t1, t2)
     \<and> length t1 = length t2
     \<and> remove_gaps (rev t1) = remove_gaps s1
     \<and> remove_gaps (rev t2) = remove_gaps s2
     \<and> (GAP \<notin> set s1 \<and> GAP \<notin> set s2 \<longrightarrow>
          rescore mt mm gp (rev t1) (rev t2)
            = score_matrix s1 s2 mt mm gp ! length s1 ! length s2)"
proof -
  from traceback_props [OF score_matrix_cells, of "length s1" s1 "length s2" s2 mt mm gp "[]" "[]"]
  obtain t1 t2 where
    r: "traceback (score_matrix s1 s2 mt mm gp) s1 s2 mt mm gp (length s1) (length s2) [] []
          = Some (t1, t2)"
    and ok: "tb_ok s1 s2 mt mm gp (length s1) (length s2) t1 t2"
    by auto
  from ok have len: "length t1 = length t2" unfolding tb_ok_def by simp
  have "rescore mt mm gp (rev t1) (rev t2) = score_matrix s1 s2 mt mm gp ! length s1 ! length s2"
    if "GAP \<notin> set s1 \<and> GAP \<notin> set s2"
    using that ok rescore_rev [OF len, of mt mm gp] score_matrix_nw [of "length s1" s1 "length s2" s2 mt mm gp]
    unfolding tb_ok_def by simp
  with r ok len show ?thesis unfolding tb_ok_def by auto
qed

lemma needleman_wunsch_result:
  "\<exists>a1 a2. needleman_wunsch s1 s2 mt mm gp = Some (a1, a2)
     \<and> length a1 = length a2
     \<and> remove_gaps a1 = remove_gaps s1
     \<and> remove_gaps a2 = remove_gaps s2
     \<and> (GAP \<notin> set s1 \<and> GAP \<notin> set s2 \<longrightarrow>
          rescore mt mm gp a1 a2 = score_matrix s1 s2 mt mm gp ! length s1 ! length s2)"
proof -
  from traceback_full [of s1 s2 mt mm gp] obtain t1 t2 where
    "traceback (score_matrix s1 s2 mt mm gp) s1 s2 mt mm gp (length s1) (length s2) [] []
             = Some (t1, t2)"
    "length t1 = length t2" "remove_gaps (rev t1) = remove_gaps s1"
    "remove_gaps (rev t2) = remove_gaps s2"
    "GAP \<notin> set s1 \<and> GAP \<notin> set s2 \<longrightarrow>
          rescore mt mm gp (rev t1) (rev t2)
            = score_matrix s1 s2 mt mm gp ! length s1 ! length s2"
    by blast
  then show ?thesis unfolding needleman_wunsch_def Let_def by simp
qed

lemma simple_align_eq: "simple_align s1 s2 = needleman_wunsch s1 s2 2 (- 1) (- 2)"
  unfolding simple_align_def needleman_wunsch_def Let_def ..

lemma traceback_row0:
  "j \<le> length s2 \<Longrightarrow>
   traceback sc s1 s2 mt mm gp 0 j a1 a2 = Some (a1 @ replicate j GAP, a2 @ rev (take j s2))"
proof (induction j arbitrary: a1 a2)
  case 0
  then show ?case using traceback_stop [of 0 0] by simp
next
  case (Suc j)
  have "traceback sc s1 s2 mt mm gp 0 (Suc j) a1 a2 =
        traceback sc s1 s2 mt mm gp 0 (Suc j - 1) (a1 @ [GAP]) (a2 @ [s2 ! (Suc j - 1)])"
    by (rule traceback_left) simp_all
  then show ?case using Suc
    by (simp add: take_Suc_conv_app_nth replicate_append_same)
qed

lemma traceback_col0:
  assumes "\<forall>i \<le> length s1. sc ! i ! 0 = int i * gp"
  shows "i \<le> length s1 \<Longrightarrow>
   traceback sc s1 s2 mt mm gp i 0 a1 a2 = Some (a1 @ rev (take i s1), a2 @ replicate i GAP)"
proof (induction i arbitrary: a1 a2)
  case 0
  then show ?case using traceback_stop [of 0 0] by simp
next
  case (Suc i)
  have "sc ! Suc i ! 0 = sc ! i ! 0 + gp"
    using assms Suc.prems by (simp add: algebra_simps)
  then have "traceback sc s1 s2 mt mm gp (Suc i) 0 a1 a2 =
        traceback sc s1 s2 mt mm gp (Suc i - 1) 0 (a1 @ [s1 ! (Suc i - 1)]) (a2 @ [GAP])"
    by (intro traceback_up) simp_all
  then show ?case using Suc
    by (simp add: take_Suc_conv_app_nth replicate_append_same)
qed

lemma traceback_acc:
  "traceback sc s1 s2 mt mm gp i j a1 a2 =
     map_option (\<lambda>(t1, t2). (a1 @ t1, a2 @ t2)) (traceback sc s1 s2 mt mm gp i j [] [])"
proof (induction "i + j" arbitrary: i j a1 a2 rule: less_induct)
  case less
  let ?diag = "0 < i \<and> 0 < j \<and> sc ! i ! j = sc ! (i - 1) ! (j - 1)
                  + (if s1 ! (i - 1) = s2 ! (j - 1) then mt else mm)"
  let ?up = "0 < i \<and> sc ! i ! j = sc ! (i - 1) ! j + gp"
  show ?case
  proof (cases "0 < i \<or> 0 < j")
    case False
    then show ?thesis using traceback_stop [of i j] by simp
  next
    case nz: True
    show ?thesis
    proof (cases ?diag)
      case True
      then have m: "(i - 1) + (j - 1) < i + j" by simp
      show ?thesis
        unfolding traceback_diag [OF nz True]
        by (subst less [OF m], subst (2) less [OF m])
           (simp add: option.map_comp comp_def case_prod_unfold)
    next
      case nd: False
      show ?thesis
      proof (cases ?up)
        case True
        then have m: "(i - 1) + j < i + j" by simp
        show ?thesis
          unfolding traceback_up [OF nz nd True]
          by (subst less [OF m], subst (2) less [OF m])
             (simp add: option.map_comp comp_def case_prod_unfold)
      next
        case nu: False
        show ?thesis
        proof (cases "0 < j")
          case True
          then have m: "i + (j - 1) < i + j" by simp
          show ?thesis
            unfolding traceback_left [OF nz nd nu True]
            by (subst less [OF m], subst (2) less [OF m])
               (simp add: option.map_comp comp_def case_prod_unfold)
        next
          case False
          have "traceback sc s1 s2 mt mm gp i j b1 b2 = None" for b1 b2
            by (subst traceback.simps,
                simp only: if_P [OF nz] if_not_P [OF nd] if_not_P [OF nu] if_not_P [OF False])
          then show ?thesis by simp
        qed
      qed
    qed
  qed
qed

lemma traceback_first_column:
  assumes "0 < i" and "0 < j"
  shows "traceback score seq1 seq2 match mismatch gap i j aligned1 aligned2 =
          (if score ! i ! j = score ! (i - 1) ! (j - 1)
                                + (if seq1 ! (i - 1) = seq2 ! (j - 1) then match else mismatch)
           then map_option (\<lambda>(t1, t2). (aligned1 @ seq1 ! (i - 1) # t1, aligned2 @ seq2 ! (j - 1) # t2))
                  (traceback score seq1 seq2 match mismatch gap (i - 1) (j - 1) [] [])
           else if score ! i ! j = score ! (i - 1) ! j + gap
           then map_option (\<lambda>(t1, t2). (aligned1 @ seq1 ! (i - 1) # t1, aligned2 @ GAP # t2))
                  (traceback score seq1 seq2 match mismatch gap (i - 1) j [] [])
           else map_option (\<lambda>(t1, t2). (aligned1 @ GAP # t1, aligned2 @ seq2 ! (j - 1) # t2))
                  (traceback score seq1 seq2 match mismatch gap i (j - 1) [] []))"
proof -
  let ?d = "score ! i ! j = score ! (i - 1) ! (j - 1)
                                + (if seq1 ! (i - 1) = seq2 ! (j - 1) then match else mismatch)"
  let ?u = "score ! i ! j = score ! (i - 1) ! j + gap"
  have nz: "0 < i \<or> 0 < j" using assms by simp
  show ?thesis
  proof (cases ?d)
    case True
    with assms have d: "0 < i \<and> 0 < j \<and> ?d" by simp
    show ?thesis
      unfolding traceback_diag [OF nz d] if_P [OF True]
      by (subst traceback_acc) simp
  next
    case False
    then have nd: "\<not> (0 < i \<and> 0 < j \<and> ?d)" by simp
    show ?thesis
    proof (cases ?u)
      case True
      with assms have u: "0 < i \<and> ?u" by simp
      show ?thesis
        unfolding traceback_up [OF nz nd u] if_not_P [OF False] if_P [OF True]
        by (subst traceback_acc) simp
    next
      case nu': False
      then have nu: "\<not> (0 < i \<and> ?u)" by simp
      show ?thesis
        unfolding traceback_left [OF nz nd nu assms(2)] if_not_P [OF False] if_not_P [OF nu']
        by (subst traceback_acc) simp
    qed
  qed
qed

lemma nw_cong:
  assumes "\<forall>k<i. s1 ! k = s1' ! k" and "\<forall>k<j. s2 ! k = s2' ! k"
  shows "nw s1 s2 mt mm gp i j = nw s1' s2' mt mm gp i j"
  using assms
proof (induction s1 s2 mt mm gp i j rule: nw.induct)
  case (1 s1 s2 mt mm gp j)
  then show ?case by simp
next
  case (2 s1 s2 mt mm gp i)
  then show ?case by simp
next
  case (3 s1 s2 mt mm gp i j)
  have a: "nw s1 s2 mt mm gp i j = nw s1' s2' mt mm gp i j"
    using 3 by simp
  have b: "nw s1 s2 mt mm gp i (Suc j) = nw s1' s2' mt mm gp i (Suc j)"
    using 3 by simp
  have c: "nw s1 s2 mt mm gp (Suc i) j = nw s1' s2' mt mm gp (Suc i) j"
    using 3 by simp
  have d: "s1 ! i = s1' ! i" "s2 ! j = s2' ! j" using "3.prems" by simp_all
  show ?case by (simp add: a b c d)
qed

lemma traceback_cong:
  assumes "\<forall>i'\<le>i. \<forall>j'\<le>j. T ! i' ! j' = T' ! i' ! j'"
    and "\<forall>k<i. s1 ! k = s1' ! k" and "\<forall>k<j. s2 ! k = s2' ! k"
  shows "traceback T s1 s2 mt mm gp i j a1 a2 = traceback T' s1' s2' mt mm gp i j a1 a2"
  using assms
proof (induction "i + j" arbitrary: i j a1 a2 rule: less_induct)
  case less
  have cell: "\<And>i' j'. i' \<le> i \<Longrightarrow> j' \<le> j \<Longrightarrow> T ! i' ! j' = T' ! i' ! j'"
    using less.prems(1) by simp
  have c1: "0 < i \<Longrightarrow> s1 ! (i - 1) = s1' ! (i - 1)" using less.prems(2) by simp
  have c2: "0 < j \<Longrightarrow> s2 ! (j - 1) = s2' ! (j - 1)" using less.prems(3) by simp
  let ?diag = "\<lambda>T s1 s2. 0 < i \<and> 0 < j \<and> T ! i ! j = T ! (i - 1) ! (j - 1)
                  + (if s1 ! (i - 1) = s2 ! (j - 1) then mt else mm)"
  let ?up = "\<lambda>T. 0 < i \<and> T ! i ! j = T ! (i - 1) ! j + gp"
  have dd: "?diag T s1 s2 \<longleftrightarrow> ?diag T' s1' s2'"
    using cell [of i j] cell [of "i - 1" "j - 1"] c1 c2 by auto
  have uu: "?up T \<longleftrightarrow> ?up T'"
    using cell [of i j] cell [of "i - 1" j] by auto
  have sub: "traceback T s1 s2 mt mm gp i' j' b1 b2 = traceback T' s1' s2' mt mm gp i' j' b1 b2"
    if "i' \<le> i" "j' \<le> j" "i' + j' < i + j" for i' j' b1 b2
    using less.hyps [OF that(3)] less.prems that by simp
  show ?case
  proof (cases "0 < i \<or> 0 < j")
    case False
    then show ?thesis using traceback_stop [of i j] by simp
  next
    case nz: True
    show ?thesis
    proof (cases "?diag T s1 s2")
      case True
      then have True': "?diag T' s1' s2'" using dd by blast
      show ?thesis
        unfolding traceback_diag [OF nz True] traceback_diag [OF nz True']
        using sub [of "i - 1" "j - 1"] True c1 c2 by simp
    next
      case nd: False
      then have nd': "\<not> ?diag T' s1' s2'" using dd by blast
      show ?thesis
      proof (cases "?up T")
        case True
        then have True': "?up T'" using uu by blast
        show ?thesis
          unfolding traceback_up [OF nz nd True] traceback_up [OF nz nd' True']
          using sub [of "i - 1" j] True c1 by simp
      next
        case nu: False
        then have nu': "\<not> ?up T'" using uu by blast
        show ?thesis
        proof (cases "0 < j")
          case True
          show ?thesis
            unfolding traceback_left [OF nz nd nu True] traceback_left [OF nz nd' nu' True]
            using sub [of i "j - 1"] True c2 by simp
        next
          case False
          have "traceback T s1 s2 mt mm gp i j a1 a2 = None"
            by (subst traceback.simps,
                simp only: if_P [OF nz] if_not_P [OF nd] if_not_P [OF nu] if_not_P [OF False])
          moreover have "traceback T' s1' s2' mt mm gp i j a1 a2 = None"
            by (subst traceback.simps,
                simp only: if_P [OF nz] if_not_P [OF nd'] if_not_P [OF nu'] if_not_P [OF False])
          ultimately show ?thesis by simp
        qed
      qed
    qed
  qed
qed

lemma traceback_prefix:
  assumes "i \<le> length s1" and "j \<le> length s2"
  shows "traceback (score_matrix s1 s2 mt mm gp) s1 s2 mt mm gp i j a1 a2 =
         traceback (score_matrix (take i s1) (take j s2) mt mm gp) (take i s1) (take j s2)
           mt mm gp i j a1 a2"
proof (rule traceback_cong)
  show "\<forall>i'\<le>i. \<forall>j'\<le>j. score_matrix s1 s2 mt mm gp ! i' ! j'
          = score_matrix (take i s1) (take j s2) mt mm gp ! i' ! j'"
  proof (intro allI impI)
    fix i' j' assume b: "i' \<le> i" "j' \<le> j"
    have "score_matrix s1 s2 mt mm gp ! i' ! j' = nw s1 s2 mt mm gp i' j'"
      using b assms by (intro score_matrix_nw) simp_all
    also have "\<dots> = nw (take i s1) (take j s2) mt mm gp i' j'"
      using b by (intro nw_cong) simp_all
    also have "\<dots> = score_matrix (take i s1) (take j s2) mt mm gp ! i' ! j'"
      using b assms by (intro score_matrix_nw [symmetric]) simp_all
    finally show "score_matrix s1 s2 mt mm gp ! i' ! j'
          = score_matrix (take i s1) (take j s2) mt mm gp ! i' ! j'" .
  qed
qed simp_all

lemma needleman_wunsch_traceback:
  "needleman_wunsch s1 s2 mt mm gp =
     map_option (\<lambda>(t1, t2). (rev t1, rev t2))
       (traceback (score_matrix s1 s2 mt mm gp) s1 s2 mt mm gp (length s1) (length s2) [] [])"
  unfolding needleman_wunsch_def Let_def by (simp split: option.splits)

lemma needleman_wunsch_prefix:
  assumes "i \<le> length s1" and "j \<le> length s2"
  shows "map_option (\<lambda>(t1, t2). (rev t1, rev t2))
           (traceback (score_matrix s1 s2 mt mm gp) s1 s2 mt mm gp i j [] [])
         = needleman_wunsch (take i s1) (take j s2) mt mm gp"
  unfolding needleman_wunsch_traceback traceback_prefix [OF assms]
  using assms by (simp add: min_def)

lemma needleman_wunsch_last_column:
  assumes "seq1 \<noteq> []" and "seq2 \<noteq> []"
  shows "needleman_wunsch seq1 seq2 match mismatch gap =
     (let score = score_matrix seq1 seq2 match mismatch gap; m = length seq1; n = length seq2
      in if score ! m ! n = score ! (m - 1) ! (n - 1)
                              + (if last seq1 = last seq2 then match else mismatch)
         then map_option (\<lambda>(r1, r2). (r1 @ [last seq1], r2 @ [last seq2]))
                (needleman_wunsch (butlast seq1) (butlast seq2) match mismatch gap)
         else if score ! m ! n = score ! (m - 1) ! n + gap
         then map_option (\<lambda>(r1, r2). (r1 @ [last seq1], r2 @ [GAP]))
                (needleman_wunsch (butlast seq1) seq2 match mismatch gap)
         else map_option (\<lambda>(r1, r2). (r1 @ [GAP], r2 @ [last seq2]))
                (needleman_wunsch seq1 (butlast seq2) match mismatch gap))"
proof -
  define m n sc where "m = length seq1" and "n = length seq2"
    and "sc = score_matrix seq1 seq2 match mismatch gap"
  have pos: "0 < m" "0 < n" using assms unfolding m_def n_def by simp_all
  have l1: "last seq1 = seq1 ! (m - 1)" and l2: "last seq2 = seq2 ! (n - 1)"
    using assms unfolding m_def n_def by (simp_all add: last_conv_nth)
  have b1: "butlast seq1 = take (m - 1) seq1" and b2: "butlast seq2 = take (n - 1) seq2"
    unfolding m_def n_def by (simp_all add: butlast_conv_take)
  have f1: "seq1 = take m seq1" and f2: "seq2 = take n seq2"
    unfolding m_def n_def by simp_all
  have p: "needleman_wunsch (take i seq1) (take j seq2) match mismatch gap
            = map_option (\<lambda>(t1, t2). (rev t1, rev t2))
                (traceback sc seq1 seq2 match mismatch gap i j [] [])"
    if "i \<le> m" "j \<le> n" for i j
    using needleman_wunsch_prefix [of i seq1 j seq2 match mismatch gap] that
    unfolding m_def n_def sc_def by simp
  have pd: "needleman_wunsch (butlast seq1) (butlast seq2) match mismatch gap
            = map_option (\<lambda>(t1, t2). (rev t1, rev t2))
                (traceback sc seq1 seq2 match mismatch gap (m - 1) (n - 1) [] [])"
    unfolding b1 b2 by (rule p) simp_all
  have pu: "needleman_wunsch (butlast seq1) seq2 match mismatch gap
            = map_option (\<lambda>(t1, t2). (rev t1, rev t2))
                (traceback sc seq1 seq2 match mismatch gap (m - 1) n [] [])"
    unfolding b1 by (subst f2, rule p) simp_all
  have pl: "needleman_wunsch seq1 (butlast seq2) match mismatch gap
            = map_option (\<lambda>(t1, t2). (rev t1, rev t2))
                (traceback sc seq1 seq2 match mismatch gap m (n - 1) [] [])"
    unfolding b2 by (subst f1, rule p) simp_all
  have "needleman_wunsch seq1 seq2 match mismatch gap
          = map_option (\<lambda>(t1, t2). (rev t1, rev t2))
              (traceback sc seq1 seq2 match mismatch gap m n [] [])"
    unfolding needleman_wunsch_traceback m_def n_def sc_def ..
  also have "\<dots> =
      (if sc ! m ! n = sc ! (m - 1) ! (n - 1)
                         + (if last seq1 = last seq2 then match else mismatch)
       then map_option (\<lambda>(r1, r2). (r1 @ [last seq1], r2 @ [last seq2]))
              (needleman_wunsch (butlast seq1) (butlast seq2) match mismatch gap)
       else if sc ! m ! n = sc ! (m - 1) ! n + gap
       then map_option (\<lambda>(r1, r2). (r1 @ [last seq1], r2 @ [GAP]))
              (needleman_wunsch (butlast seq1) seq2 match mismatch gap)
       else map_option (\<lambda>(r1, r2). (r1 @ [GAP], r2 @ [last seq2]))
              (needleman_wunsch seq1 (butlast seq2) match mismatch gap))"
    unfolding pd pu pl l1 l2
    by (subst traceback_first_column [OF pos])
       (simp add: option.map_comp comp_def case_prod_unfold)
  finally show ?thesis unfolding Let_def m_def n_def sc_def .
qed

lemma count_matches:
  "sum_list (map (\<lambda>_. 1::nat) (filter (\<lambda>(a, b). a = b \<and> a \<noteq> GAP) (zip a1 a2)))
     = card {k. k < min (length a1) (length a2) \<and> a1 ! k = a2 ! k \<and> a1 ! k \<noteq> GAP}"
proof -
  have "sum_list (map (\<lambda>_. 1::nat) xs) = length xs" for xs :: "(char \<times> char) list"
    by (induction xs) auto
  then have "sum_list (map (\<lambda>_. 1::nat) (filter (\<lambda>(a, b). a = b \<and> a \<noteq> GAP) (zip a1 a2)))
     = card {k. k < length (zip a1 a2) \<and> (\<lambda>(a, b). a = b \<and> a \<noteq> GAP) (zip a1 a2 ! k)}"
    by (simp add: length_filter_conv_card)
  also have "{k. k < length (zip a1 a2) \<and> (\<lambda>(a, b). a = b \<and> a \<noteq> GAP) (zip a1 a2 ! k)}
     = {k. k < min (length a1) (length a2) \<and> a1 ! k = a2 ! k \<and> a1 ! k \<noteq> GAP}"
    by auto
  finally show ?thesis .
qed

lemma count_ungapped:
  "length (remove_gaps s) = card {k. k < length s \<and> s ! k \<noteq> GAP}"
  unfolding remove_gaps_def by (simp add: length_filter_conv_card)

section \<open>Properties of the aligner\<close>

text \<open>
  C1. For every pair of sequences over the alphabet, which has no gap symbol, the two
  strings returned by \<open>needleman_wunsch\<close> and by \<open>simple_align\<close> have equal length,
  and deleting the gap symbols from the first gives back the first input, from the second
  the second input. The call always returns.
\<close>

theorem alignment_round_trip:
  assumes "GAP \<notin> set A" and "GAP \<notin> set B"
  shows "(\<exists>a1 a2. needleman_wunsch A B match mismatch gap = Some (a1, a2)
            \<and> length a1 = length a2 \<and> remove_gaps a1 = A \<and> remove_gaps a2 = B)
       \<and> (\<exists>a1 a2. simple_align A B = Some (a1, a2)
            \<and> length a1 = length a2 \<and> remove_gaps a1 = A \<and> remove_gaps a2 = B)"
proof -
  have "\<exists>a1 a2. needleman_wunsch A B mt mm gp = Some (a1, a2)
            \<and> length a1 = length a2 \<and> remove_gaps a1 = A \<and> remove_gaps a2 = B" for mt mm gp
    using needleman_wunsch_result [of A B mt mm gp] remove_gaps_id assms by auto
  then show ?thesis unfolding simple_align_eq by blast
qed

theorem alignment_round_trip_witness:
  "GAP \<notin> set ''ACGT'' \<and> GAP \<notin> set ''AGT'' \<and>
   (\<exists>a1 a2. needleman_wunsch ''ACGT'' ''AGT'' 2 (- 1) (- 2) = Some (a1, a2)
            \<and> length a1 = length a2 \<and> remove_gaps a1 = ''ACGT'' \<and> remove_gaps a2 = ''AGT'')
   \<and> (\<exists>a1 a2. simple_align ''ACGT'' ''AGT'' = Some (a1, a2)
            \<and> length a1 = length a2 \<and> remove_gaps a1 = ''ACGT'' \<and> remove_gaps a2 = ''AGT'')"
proof -
  have h: "GAP \<notin> set ''ACGT''" "GAP \<notin> set ''AGT''" by (simp_all add: GAP_def)
  from alignment_round_trip [OF h, of 2 "- 1" "- 2"] h show ?thesis by blast
qed



text \<open>
  C3. At a traceback cell with \<open>i > 0\<close> and \<open>j > 0\<close> the diagonal move is taken
  whenever the cell equals the recomputed diagonal candidate; otherwise the up move
  (consume a symbol of the first sequence) whenever it reproduces the cell, before the
  left move. The move fixes the column that the traceback emits next and the cell it
  continues from; for the aligner as a whole it fixes the last column of the alignment,
  the rest being the alignment of the shortened sequences. The aligner is a function of
  its sequences and parameters and returns exactly one pair of strings.
\<close>

theorem traceback_tie_break:
  assumes "0 < i" and "0 < j"
  shows "traceback score seq1 seq2 match mismatch gap i j aligned1 aligned2 =
          (if score ! i ! j = score ! (i - 1) ! (j - 1)
                                + (if seq1 ! (i - 1) = seq2 ! (j - 1) then match else mismatch)
           then map_option (\<lambda>(t1, t2). (aligned1 @ seq1 ! (i - 1) # t1, aligned2 @ seq2 ! (j - 1) # t2))
                  (traceback score seq1 seq2 match mismatch gap (i - 1) (j - 1) [] [])
           else if score ! i ! j = score ! (i - 1) ! j + gap
           then map_option (\<lambda>(t1, t2). (aligned1 @ seq1 ! (i - 1) # t1, aligned2 @ GAP # t2))
                  (traceback score seq1 seq2 match mismatch gap (i - 1) j [] [])
           else map_option (\<lambda>(t1, t2). (aligned1 @ GAP # t1, aligned2 @ seq2 ! (j - 1) # t2))
                  (traceback score seq1 seq2 match mismatch gap i (j - 1) [] []))
       \<and> (seq1 \<noteq> [] \<and> seq2 \<noteq> [] \<longrightarrow>
            needleman_wunsch seq1 seq2 match mismatch gap =
              (let score = score_matrix seq1 seq2 match mismatch gap;
                   m = length seq1; n = length seq2
               in if score ! m ! n = score ! (m - 1) ! (n - 1)
                                       + (if last seq1 = last seq2 then match else mismatch)
                  then map_option (\<lambda>(r1, r2). (r1 @ [last seq1], r2 @ [last seq2]))
                         (needleman_wunsch (butlast seq1) (butlast seq2) match mismatch gap)
                  else if score ! m ! n = score ! (m - 1) ! n + gap
                  then map_option (\<lambda>(r1, r2). (r1 @ [last seq1], r2 @ [GAP]))
                         (needleman_wunsch (butlast seq1) seq2 match mismatch gap)
                  else map_option (\<lambda>(r1, r2). (r1 @ [GAP], r2 @ [last seq2]))
                         (needleman_wunsch seq1 (butlast seq2) match mismatch gap)))
       \<and> simple_align seq1 seq2 = needleman_wunsch seq1 seq2 2 (- 1) (- 2)
       \<and> (\<exists>!r. needleman_wunsch seq1 seq2 match mismatch gap = Some r)
       \<and> (\<exists>!r. simple_align seq1 seq2 = Some r)"
proof (intro conjI impI)
  show "traceback score seq1 seq2 match mismatch gap i j aligned1 aligned2 =
          (if score ! i ! j = score ! (i - 1) ! (j - 1)
                                + (if seq1 ! (i - 1) = seq2 ! (j - 1) then match else mismatch)
           then map_option (\<lambda>(t1, t2). (aligned1 @ seq1 ! (i - 1) # t1, aligned2 @ seq2 ! (j - 1) # t2))
                  (traceback score seq1 seq2 match mismatch gap (i - 1) (j - 1) [] [])
           else if score ! i ! j = score ! (i - 1) ! j + gap
           then map_option (\<lambda>(t1, t2). (aligned1 @ seq1 ! (i - 1) # t1, aligned2 @ GAP # t2))
                  (traceback score seq1 seq2 match mismatch gap (i - 1) j [] [])
           else map_option (\<lambda>(t1, t2). (aligned1 @ GAP # t1, aligned2 @ seq2 ! (j - 1) # t2))
                  (traceback score seq1 seq2 match mismatch gap i (j - 1) [] []))"
    by (rule traceback_first_column [OF assms])
next
  assume "seq1 \<noteq> [] \<and> seq2 \<noteq> []"
  then show "needleman_wunsch seq1 seq2 match mismatch gap =
              (let score = score_matrix seq1 seq2 match mismatch gap;
                   m = length seq1; n = length seq2
               in if score ! m ! n = score ! (m - 1) ! (n - 1)
                                       + (if last seq1 = last seq2 then match else mismatch)
                  then map_option (\<lambda>(r1, r2). (r1 @ [last seq1], r2 @ [last seq2]))
                         (needleman_wunsch (butlast seq1) (butlast seq2) match mismatch gap)
                  else if score ! m ! n = score ! (m - 1) ! n + gap
                  then map_option (\<lambda>(r1, r2). (r1 @ [last seq1], r2 @ [GAP]))
                         (needleman_wunsch (butlast seq1) seq2 match mismatch gap)
                  else map_option (\<lambda>(r1, r2). (r1 @ [GAP], r2 @ [last seq2]))
                         (needleman_wunsch seq1 (butlast seq2) match mismatch gap))"
    using needleman_wunsch_last_column [of seq1 seq2 match mismatch gap] by blast
next
  show "simple_align seq1 seq2 = needleman_wunsch seq1 seq2 2 (- 1) (- 2)"
    by (rule simple_align_eq)
next
  show "\<exists>!r. needleman_wunsch seq1 seq2 match mismatch gap = Some r"
    using needleman_wunsch_result [of seq1 seq2 match mismatch gap] by auto
next
  show "\<exists>!r. simple_align seq1 seq2 = Some r"
    unfolding simple_align_eq using needleman_wunsch_result [of seq1 seq2 2 "- 1" "- 2"] by auto
qed

text \<open>
  Two ties, evaluated. For AA against A the cell \<open>(2, 1)\<close> is reproduced by the diagonal
  and by the up move: the diagonal column is emitted first, so the result is AA over -A
  and not AA over A-. For A against C with mismatch -10 the cell \<open>(1, 1)\<close> is reproduced by
  the up and by the left move: the up column is emitted first, so the result is -A over C-.
\<close>

theorem traceback_tie_break_witness:
  "(0::nat) < 2 \<and> (0::nat) < 1 \<and> (''AA'' \<noteq> [] \<and> ''A'' \<noteq> []) \<and>
   score_matrix ''AA'' ''A'' 2 (- 1) (- 2) = [[0, - 2], [- 2, 2], [- 4, 0]] \<and>
   traceback (score_matrix ''AA'' ''A'' 2 (- 1) (- 2)) ''AA'' ''A'' 2 (- 1) (- 2) 2 1 [] []
     = Some (''AA'', ''A-'') \<and>
   needleman_wunsch ''AA'' ''A'' 2 (- 1) (- 2) = Some (''AA'', ''-A'') \<and>
   (''A'' \<noteq> [] \<and> ''C'' \<noteq> []) \<and>
   score_matrix ''A'' ''C'' 2 (- 10) (- 2) = [[0, - 2], [- 2, - 4]] \<and>
   traceback (score_matrix ''A'' ''C'' 2 (- 10) (- 2)) ''A'' ''C'' 2 (- 10) (- 2) 1 1 [] []
     = Some (''A-'', ''-C'') \<and>
   needleman_wunsch ''A'' ''C'' 2 (- 10) (- 2) = Some (''-A'', ''C-'')"
proof -
  have s1: "score_matrix ''AA'' ''A'' 2 (- 1) (- 2) = [[0, - 2], [- 2, 2], [- 4, 0]]"
    by code_simp
  have s2: "score_matrix ''A'' ''C'' 2 (- 10) (- 2) = [[0, - 2], [- 2, - 4]]"
    by code_simp
  have r1: "traceback [[0, - 2], [- 2, 2], [- 4, 0]] ''AA'' ''A'' 2 (- 1) (- 2) (Suc 0) 0 [] []
              = Some (''A'', ''-'')"
    by code_simp
  have r2: "traceback [[0, - 2], [- 2, - 4]] ''A'' ''C'' 2 (- 10) (- 2) 0 (Suc 0) [] []
              = Some (''-'', ''C'')"
    by code_simp
  have e1: "needleman_wunsch ''A'' [] 2 (- 1) (- 2) = Some (''A'', ''-'')"
    by code_simp
  have e2: "needleman_wunsch [] ''C'' 2 (- 10) (- 2) = Some (''-'', ''C'')"
    by code_simp
  have h: "(0::nat) < 2" "(0::nat) < 1" by simp_all
  have ne1: "''AA'' \<noteq> [] \<and> ''A'' \<noteq> []" and ne2: "''A'' \<noteq> [] \<and> ''C'' \<noteq> []" by simp_all
  have t1: "traceback (score_matrix ''AA'' ''A'' 2 (- 1) (- 2)) ''AA'' ''A'' 2 (- 1) (- 2) 2 1 [] []
     = Some (''AA'', ''A-'')"
    using traceback_tie_break [where score = "[[0, - 2], [- 2, 2], [- 4, 0]]"
        and ?seq1.0 = "''AA''" and ?seq2.0 = "''A''" and match = 2 and mismatch = "- 1" and gap = "- 2"
        and ?aligned1.0 = "[]" and ?aligned2.0 = "[]", OF h, THEN conjunct1]
    by (simp add: s1 r1 GAP_def)
  have t2: "traceback (score_matrix ''A'' ''C'' 2 (- 10) (- 2)) ''A'' ''C'' 2 (- 10) (- 2) 1 1 [] []
     = Some (''A-'', ''-C'')"
    using traceback_tie_break [where score = "[[0, - 2], [- 2, - 4]]"
        and ?seq1.0 = "''A''" and ?seq2.0 = "''C''" and match = 2 and mismatch = "- 10" and gap = "- 2"
        and ?aligned1.0 = "[]" and ?aligned2.0 = "[]", OF h(2) h(2), THEN conjunct1]
    by (simp add: s2 r2 GAP_def)
  have n1: "needleman_wunsch ''AA'' ''A'' 2 (- 1) (- 2) = Some (''AA'', ''-A'')"
    using traceback_tie_break [where ?seq1.0 = "''AA''" and ?seq2.0 = "''A''" and match = 2
        and mismatch = "- 1" and gap = "- 2", OF h, THEN conjunct2, THEN conjunct1, THEN mp, OF ne1]
    by (simp add: s1 e1)
  have n2: "needleman_wunsch ''A'' ''C'' 2 (- 10) (- 2) = Some (''-A'', ''C-'')"
    using traceback_tie_break [where ?seq1.0 = "''A''" and ?seq2.0 = "''C''" and match = 2
        and mismatch = "- 10" and gap = "- 2", OF h, THEN conjunct2, THEN conjunct1, THEN mp, OF ne2]
    by (simp add: s2 e2 GAP_def)
  show ?thesis using s1 s2 t1 t2 n1 n2 by simp
qed

text \<open>
  C4, as amended. \<open>calculate_identity\<close> is 100 times the number of columns with two equal
  non-gap symbols divided by the number of non-gap symbols of the first aligned string
  (in generate\_alignment.py: by the larger of the two strings' non-gap counts), and 0 when
  that divisor is 0.
\<close>

theorem identity_definition:
  "calculate_identity aligned1 aligned2 =
     (if card {k. k < length aligned1 \<and> aligned1 ! k \<noteq> GAP} = 0 then 0
      else 100 * real (card {k. k < min (length aligned1) (length aligned2)
                                 \<and> aligned1 ! k = aligned2 ! k \<and> aligned1 ! k \<noteq> GAP})
               / real (card {k. k < length aligned1 \<and> aligned1 ! k \<noteq> GAP}))
   \<and> calculate_identity_ga aligned1 aligned2 =
     (if max (card {k. k < length aligned1 \<and> aligned1 ! k \<noteq> GAP})
             (card {k. k < length aligned2 \<and> aligned2 ! k \<noteq> GAP}) = 0 then 0
      else 100 * real (card {k. k < min (length aligned1) (length aligned2)
                                 \<and> aligned1 ! k = aligned2 ! k \<and> aligned1 ! k \<noteq> GAP})
               / real (max (card {k. k < length aligned1 \<and> aligned1 ! k \<noteq> GAP})
                           (card {k. k < length aligned2 \<and> aligned2 ! k \<noteq> GAP})))"
  unfolding calculate_identity_def calculate_identity_ga_def Let_def count_matches count_ungapped
  by simp

text \<open>
  C4 as stated fails: for the alignment of ACGT with A-GT the code returns 75, while
  equal columns over ungapped columns is 3/3.
\<close>

theorem identity_definition_counterexample:
  "calculate_identity ''ACGT'' ''A-GT'' = 75 \<and>
   calculate_identity_ga ''ACGT'' ''A-GT'' = 75 \<and>
   spec_identity ''ACGT'' ''A-GT'' = 1"
  by (simp add: calculate_identity_def calculate_identity_ga_def spec_identity_def
        remove_gaps_def GAP_def)

text \<open>
  C5. Aligning ACGT with AGT under match 2, mismatch -1, gap -2 returns ACGT over A-GT,
  one gap opposite the C, and the identity of that alignment is 3/4, that is 75 percent.
\<close>

theorem scenario_acgt_agt:
  "needleman_wunsch ''ACGT'' ''AGT'' 2 (- 1) (- 2) = Some (''ACGT'', ''A-GT'') \<and>
   calculate_identity ''ACGT'' ''A-GT'' = 3 / 4 * 100 \<and>
   calculate_identity ''ACGT'' ''A-GT'' = 75"
proof -
  have "needleman_wunsch ''ACGT'' ''AGT'' 2 (- 1) (- 2) = Some (''ACGT'', ''A-GT'')"
    by code_simp
  moreover have "calculate_identity ''ACGT'' ''A-GT'' = 75"
    by (simp add: calculate_identity_def remove_gaps_def GAP_def)
  ultimately show ?thesis by simp
qed

text \<open>
  C6, as amended. The aligner has no check for empty input: when one sequence is empty
  it returns the other sequence aligned against gap characters only.
\<close>

theorem empty_input_alignment:
  "needleman_wunsch [] B match mismatch gap = Some (replicate (length B) GAP, B) \<and>
   needleman_wunsch A [] match mismatch gap = Some (A, replicate (length A) GAP) \<and>
   simple_align [] B = Some (replicate (length B) GAP, B) \<and>
   simple_align A [] = Some (A, replicate (length A) GAP)"
proof -
  have a: "needleman_wunsch [] B mt mm gp = Some (replicate (length B) GAP, B)" for mt mm gp
    unfolding needleman_wunsch_def Let_def
    using traceback_row0 [of "length B" B _ "[]" mt mm gp "[]" "[]"] by simp
  have b: "needleman_wunsch A [] mt mm gp = Some (A, replicate (length A) GAP)" for mt mm gp
  proof -
    have c: "\<forall>i \<le> length A. score_matrix A [] mt mm gp ! i ! 0 = int i * gp"
      using score_matrix_nw [of _ A 0 "[]" mt mm gp] by (simp add: nw_col0)
    have "traceback (score_matrix A [] mt mm gp) A [] mt mm gp (length A) 0 [] []
            = Some ([] @ rev (take (length A) A), [] @ replicate (length A) GAP)"
      by (rule traceback_col0 [OF c]) simp
    then show ?thesis unfolding needleman_wunsch_def Let_def by simp
  qed
  show ?thesis unfolding simple_align_eq using a b by simp
qed

text \<open>C6 as stated fails: a call with an empty first sequence returns an alignment.\<close>

theorem empty_input_counterexample:
  "needleman_wunsch '''' ''AC'' 2 (- 1) (- 2) = Some (''--'', ''AC'')"
  by code_simp

section \<open>Determinants of 3 by 3 matrices\<close>

lemma det3_mul: "det3 (mat_mul A B) = det3 A * det3 B"
  by (cases A rule: prod_cases3; cases B rule: prod_cases3) 
     (auto simp: algebra_simps)

lemma det3_transpose: "det3 (transpose3 A) = det3 A"
  by (cases A rule: prod_cases3) (auto simp: algebra_simps)

lemma det3_negate: "det3 (negate_last_row A) = - det3 A"
  by (cases A rule: prod_cases3) (auto simp: algebra_simps)

lemma det3_orthogonal:
  assumes "orthogonal3 M" shows "det3 M = 1 \<or> det3 M = - 1"
proof -
  have "det3 (mat_mul M (transpose3 M)) = 1"
    using assms unfolding orthogonal3_def by (simp add: identity3_def)
  then have "det3 M * det3 M = 1" by (simp add: det3_mul det3_transpose)
  then show ?thesis using square_eq_1_iff [of "det3 M"] by blast
qed

lemma kabsch_core_det:
  assumes "svd (matT_mul (map (\<lambda>p. vsub p (mean_axis0 P)) P) (map (\<lambda>q. vsub q (mean_axis0 Q)) Q))
             = (U, S, Vt)"
    and "orthogonal3 U" and "orthogonal3 Vt"
  shows "det3 (fst (kabsch_core svd P Q)) = 1"
proof -
  define d where "d = det3 (mat_mul (transpose3 Vt) (transpose3 U))"
  have d: "d = det3 Vt * det3 U" unfolding d_def by (simp add: det3_mul det3_transpose)
  have R: "fst (kabsch_core svd P Q) =
           mat_mul (transpose3 (if d < 0 then negate_last_row Vt else Vt)) (transpose3 U)"
    unfolding kabsch_core_def Let_def assms(1) d_def by simp
  from det3_orthogonal [OF assms(2)] det3_orthogonal [OF assms(3)]
  show ?thesis unfolding R using d
    by (auto simp: det3_mul det3_transpose det3_negate)
qed

lemma kabsch_core_det':
  assumes "svd_orthogonal svd"
  shows "det3 (fst (kabsch_core svd P Q)) = 1"
proof -
  define H where "H = matT_mul (map (\<lambda>p. vsub p (mean_axis0 P)) P) (map (\<lambda>q. vsub q (mean_axis0 Q)) Q)"
  obtain U S Vt where s: "svd H = (U, S, Vt)" by (rule prod_cases3)
  from assms have "orthogonal3 (fst (svd H))" "orthogonal3 (snd (snd (svd H)))"
    unfolding svd_orthogonal_def by blast+
  then have o: "orthogonal3 U" "orthogonal3 Vt" unfolding s by simp_all
  show ?thesis
    by (rule kabsch_core_det [where U = U and S = S and Vt = Vt]) (use s o in \<open>simp_all add: H_def\<close>)
qed

section \<open>Properties of the superposer\<close>

text \<open>
  C7. Whenever the decomposition returns orthogonal factors, the rotation returned by
  \<open>kabsch_align\<close> and by \<open>extract_transformation\<close>, after the correction that negates
  the last row of \<open>Vt\<close> when \<open>det (Vt\<^sup>T U\<^sup>T) < 0\<close>, has determinant 1, hence within
  0.999 and 1.001 and never -1.
\<close>

theorem superposition_proper_rotation:
  assumes "svd_orthogonal svd"
  shows "(kabsch_align svd P Q = Inr (R, t) \<longrightarrow>
            det3 R = 1 \<and> 0.999 \<le> det3 R \<and> det3 R \<le> 1.001 \<and> det3 R \<noteq> - 1)
       \<and> (extract_transformation svd ca_A ca_C = Inr (R', t') \<longrightarrow>
            det3 R' = 1 \<and> 0.999 \<le> det3 R' \<and> det3 R' \<le> 1.001 \<and> det3 R' \<noteq> - 1)"
proof -
  have a: "det3 R = 1" if "kabsch_align svd P Q = Inr (R, t)"
  proof -
    from that have "kabsch_core svd P Q = (R, t)"
      unfolding kabsch_align_def by (simp split: if_splits)
    then show ?thesis using kabsch_core_det' [OF assms, of P Q] by simp
  qed
  have b: "det3 R' = 1" if "extract_transformation svd ca_A ca_C = Inr (R', t')"
  proof -
    from that have "kabsch_core svd (take (min (length ca_A) (length ca_C)) ca_A)
               (take (min (length ca_A) (length ca_C)) ca_C) = (R', t')"
      unfolding extract_transformation_def Let_def by (simp split: if_splits)
    then show ?thesis
      using kabsch_core_det' [OF assms, of "take (min (length ca_A) (length ca_C)) ca_A"
          "take (min (length ca_A) (length ca_C)) ca_C"] by simp
  qed
  show ?thesis using a b by simp
qed

text \<open>
  A reflected octahedron: the cross-covariance is \<open>diag (2, 2, -2)\<close>, its decomposition
  has \<open>Vt = diag (1, 1, -1)\<close>, and the correction turns the reflection into the identity.
\<close>

lemma mirror_svd_orthogonal:
  "svd_orthogonal (\<lambda>H. (((1, 0, 0), (0, 1, 0), (0, 0, 1)), (2, 2, 2),
                          ((1, 0, 0), (0, 1, 0), (0, 0, - 1))))"
  by (simp add: svd_orthogonal_def orthogonal3_def identity3_def)

lemma mirror_eval:
  "kabsch_align (\<lambda>H. (((1, 0, 0), (0, 1, 0), (0, 0, 1)), (2, 2, 2),
                          ((1, 0, 0), (0, 1, 0), (0, 0, - 1))))
      [(1, 0, 0), (- 1, 0, 0), (0, 1, 0), (0, - 1, 0), (0, 0, 1), (0, 0, - 1)]
      [(1, 0, 0), (- 1, 0, 0), (0, 1, 0), (0, - 1, 0), (0, 0, - 1), (0, 0, 1)]
   = Inr (((1, 0, 0), (0, 1, 0), (0, 0, 1)), (0, 0, 0))"
  by (simp add: kabsch_align_def kabsch_core_def mean_axis0_def matT_mul_def)

lemma mirror_H:
  "matT_mul [(1, 0, 0), (- 1, 0, 0), (0, 1, 0), (0, - 1, 0), (0, 0, 1), (0, 0, - 1)]
      [(1, 0, 0), (- 1, 0, 0), (0, 1, 0), (0, - 1, 0), (0, 0, - 1), (0, 0, 1)]
    = mat_mul ((1, 0, 0), (0, 1, 0), (0, 0, 1))
        (mat_mul ((2, 0, 0), (0, 2, 0), (0, 0, 2)) ((1, 0, 0), (0, 1, 0), (0, 0, - 1)))"
  by (simp add: matT_mul_def)

theorem superposition_proper_rotation_witness:
  "svd_orthogonal (\<lambda>H. (((1, 0, 0), (0, 1, 0), (0, 0, 1)), (2, 2, 2),
                          ((1, 0, 0), (0, 1, 0), (0, 0, - 1))))
   \<and> kabsch_align (\<lambda>H. (((1, 0, 0), (0, 1, 0), (0, 0, 1)), (2, 2, 2),
                          ((1, 0, 0), (0, 1, 0), (0, 0, - 1))))
        [(1, 0, 0), (- 1, 0, 0), (0, 1, 0), (0, - 1, 0), (0, 0, 1), (0, 0, - 1)]
        [(1, 0, 0), (- 1, 0, 0), (0, 1, 0), (0, - 1, 0), (0, 0, - 1), (0, 0, 1)]
      = Inr (((1, 0, 0), (0, 1, 0), (0, 0, 1)), (0, 0, 0))
   \<and> det3 ((1, 0, 0), (0, 1, 0), (0, 0, 1)) = 1"
proof -
  note h = mirror_svd_orthogonal
  note k = mirror_eval
  have "det3 ((1, 0, 0), (0, 1, 0), (0, 0, 1)) = 1"
    by (rule superposition_proper_rotation [OF h, THEN conjunct1, THEN mp, OF k, THEN conjunct1])
  with h k show ?thesis by blast
qed




section \<open>Properties of the contact finder\<close>

lemma in_find_interface_contacts:
  "c \<in> set (find_interface_contacts ((chain_a, residues_a) # (chain_b, residues_b) # rest) cutoff) \<longleftrightarrow>
     (\<exists>r1 as1 a1 c1 r2 as2 a2 c2.
        c = \<lparr>chain1 = chain_a, res1 = r1, atom1 = a1, chain2 = chain_b, res2 = r2, atom2 = a2,
             distance = calculate_distance c1 c2\<rparr> \<and>
        (r1, as1) \<in> set residues_a \<and> (a1, c1) \<in> set as1 \<and> a1 \<in> set backbone \<and>
        (r2, as2) \<in> set residues_b \<and> (a2, c2) \<in> set as2 \<and> a2 \<in> set backbone \<and>
        calculate_distance c1 c2 < cutoff)"
proof
  assume "c \<in> set (find_interface_contacts ((chain_a, residues_a) # (chain_b, residues_b) # rest) cutoff)"
  then obtain r1 as1 a1 c1 r2 as2 a2 c2 where
    "(r1, as1) \<in> set residues_a" "(a1, c1) \<in> set as1" "a1 \<in> set backbone"
    "(r2, as2) \<in> set residues_b" "(a2, c2) \<in> set as2" "a2 \<in> set backbone"
    "calculate_distance c1 c2 < cutoff"
    "c = \<lparr>chain1 = chain_a, res1 = r1, atom1 = a1, chain2 = chain_b, res2 = r2, atom2 = a2,
             distance = calculate_distance c1 c2\<rparr>"
    unfolding find_interface_contacts_def
    by (auto simp del: calculate_distance.simps split_paired_Ex split_paired_All)
  then show "\<exists>r1 as1 a1 c1 r2 as2 a2 c2.
        c = \<lparr>chain1 = chain_a, res1 = r1, atom1 = a1, chain2 = chain_b, res2 = r2, atom2 = a2,
             distance = calculate_distance c1 c2\<rparr> \<and>
        (r1, as1) \<in> set residues_a \<and> (a1, c1) \<in> set as1 \<and> a1 \<in> set backbone \<and>
        (r2, as2) \<in> set residues_b \<and> (a2, c2) \<in> set as2 \<and> a2 \<in> set backbone \<and>
        calculate_distance c1 c2 < cutoff"
    by blast
next
  assume "\<exists>r1 as1 a1 c1 r2 as2 a2 c2.
        c = \<lparr>chain1 = chain_a, res1 = r1, atom1 = a1, chain2 = chain_b, res2 = r2, atom2 = a2,
             distance = calculate_distance c1 c2\<rparr> \<and>
        (r1, as1) \<in> set residues_a \<and> (a1, c1) \<in> set as1 \<and> a1 \<in> set backbone \<and>
        (r2, as2) \<in> set residues_b \<and> (a2, c2) \<in> set as2 \<and> a2 \<in> set backbone \<and>
        calculate_distance c1 c2 < cutoff"
  then obtain r1 as1 a1 c1 r2 as2 a2 c2 where h:
    "(r1, as1) \<in> set residues_a" "(a1, c1) \<in> set as1" "a1 \<in> set backbone"
    "(r2, as2) \<in> set residues_b" "(a2, c2) \<in> set as2" "a2 \<in> set backbone"
    "calculate_distance c1 c2 < cutoff"
    "c = \<lparr>chain1 = chain_a, res1 = r1, atom1 = a1, chain2 = chain_b, res2 = r2, atom2 = a2,
             distance = calculate_distance c1 c2\<rparr>"
    by blast
  show "c \<in> set (find_interface_contacts ((chain_a, residues_a) # (chain_b, residues_b) # rest) cutoff)"
    unfolding find_interface_contacts_def
    apply (simp del: calculate_distance.simps split_paired_Ex split_paired_All)
    apply (rule bexI [OF _ h(1)], intro exI conjI, rule refl)
    apply (rule bexI [OF _ h(2)], intro exI conjI, rule refl, rule h(3))
    apply (rule bexI [OF _ h(4)], intro exI conjI, rule refl)
    apply (rule bexI [OF _ h(5)], intro exI conjI, rule refl, rule h(6), rule h(7), rule h(8))
    done
qed

lemma find_interface_contacts_short:
  "length coords < 2 \<Longrightarrow> find_interface_contacts coords cutoff = []"
  unfolding find_interface_contacts_def by (auto split: list.splits)

lemma coords_two:
  assumes "\<not> length coords < 2"
  obtains chain_a residues_a chain_b residues_b rest
  where "coords = (chain_a, residues_a) # (chain_b, residues_b) # rest"
proof -
  from assms obtain e1 e2 rest where "coords = e1 # e2 # rest"
    by (cases coords; cases "tl coords") auto
  then show ?thesis using that by (cases e1; cases e2) auto
qed

lemma find_interface_contacts_mono:
  assumes "c1 \<le> c2"
  shows "set (find_interface_contacts coords c1) \<subseteq> set (find_interface_contacts coords c2)"
proof (cases "length coords < 2")
  case True
  then show ?thesis by (simp add: find_interface_contacts_short)
next
  case False
  then obtain chain_a residues_a chain_b residues_b rest
    where c: "coords = (chain_a, residues_a) # (chain_b, residues_b) # rest"
    by (rule coords_two)
  show ?thesis
  proof
    fix x assume "x \<in> set (find_interface_contacts coords c1)"
    then obtain r1 as1 a1 p1 r2 as2 a2 p2 where
      "x = \<lparr>chain1 = chain_a, res1 = r1, atom1 = a1, chain2 = chain_b, res2 = r2, atom2 = a2,
             distance = calculate_distance p1 p2\<rparr>"
      "(r1, as1) \<in> set residues_a" "(a1, p1) \<in> set as1" "a1 \<in> set backbone"
      "(r2, as2) \<in> set residues_b" "(a2, p2) \<in> set as2" "a2 \<in> set backbone"
      "calculate_distance p1 p2 < c1"
      unfolding c in_find_interface_contacts by blast
    moreover from this assms have "calculate_distance p1 p2 < c2" by simp
    ultimately show "x \<in> set (find_interface_contacts coords c2)"
      unfolding c in_find_interface_contacts by blast
  qed
qed

lemma find_interface_contacts_rest:
  "find_interface_contacts (e1 # e2 # rest) cutoff = find_interface_contacts [e1, e2] cutoff"
  unfolding find_interface_contacts_def by (simp split: prod.splits)

lemma in_pairs:
  "(ra, rb) \<in> set [(res_a, res_b).
                     (res_a, xa, ya, za) \<leftarrow> A,
                     (res_b, xb, yb, zb) \<leftarrow> B,
                     P xa ya za xb yb zb] \<longleftrightarrow>
   (\<exists>xa ya za xb yb zb. (ra, xa, ya, za) \<in> set A \<and> (rb, xb, yb, zb) \<in> set B \<and>
        P xa ya za xb yb zb)"
  (is "?L \<longleftrightarrow> ?R")
proof
  assume ?L
  then show ?R by (auto split: if_splits) blast
next
  assume ?R
  then obtain xa ya za xb yb zb where
    h: "(ra, xa, ya, za) \<in> set A" "(rb, xb, yb, zb) \<in> set B" "P xa ya za xb yb zb"
    by blast
  show ?L
    apply simp
    apply (rule bexI [OF _ h(1)], simp)
    apply (rule bexI [OF _ h(2)], simp add: h(3))
    done
qed

lemma in_close:
  "(ra, rb) \<in> set [(res_a, res_b).
                     (res_a, xa, ya, za) \<leftarrow> A,
                     (res_b, xb, yb, zb) \<leftarrow> B,
                     sqrt ((xa - xb)\<^sup>2 + (ya - yb)\<^sup>2 + (za - zb)\<^sup>2) < cutoff] \<longleftrightarrow>
   (\<exists>xa ya za xb yb zb. (ra, xa, ya, za) \<in> set A \<and> (rb, xb, yb, zb) \<in> set B \<and>
        sqrt ((xa - xb)\<^sup>2 + (ya - yb)\<^sup>2 + (za - zb)\<^sup>2) < cutoff)"
  by (rule in_pairs [where P = "\<lambda>xa ya za xb yb zb.
        sqrt ((xa - xb)\<^sup>2 + (ya - yb)\<^sup>2 + (za - zb)\<^sup>2) < cutoff"])

lemma in_interface_a:
  "r \<in> set (fst (identify_interface_residues chain_a_atoms chain_b_atoms cutoff)) \<longleftrightarrow>
     (\<exists>xa ya za res_b xb yb zb. (r, xa, ya, za) \<in> set chain_a_atoms \<and>
        (res_b, xb, yb, zb) \<in> set chain_b_atoms \<and>
        sqrt ((xa - xb)\<^sup>2 + (ya - yb)\<^sup>2 + (za - zb)\<^sup>2) < cutoff)"
proof -
  define close where "close = [(res_a, res_b).
                     (res_a, xa, ya, za) \<leftarrow> chain_a_atoms,
                     (res_b, xb, yb, zb) \<leftarrow> chain_b_atoms,
                     sqrt ((xa - xb)\<^sup>2 + (ya - yb)\<^sup>2 + (za - zb)\<^sup>2) < cutoff]"
  have "fst (identify_interface_residues chain_a_atoms chain_b_atoms cutoff)
          = sorted_list_of_set (set (map fst close))"
    unfolding identify_interface_residues_def Let_def close_def by (rule fst_conv)
  then have "r \<in> set (fst (identify_interface_residues chain_a_atoms chain_b_atoms cutoff)) \<longleftrightarrow>
        (\<exists>rb. (r, rb) \<in> set close)"
    by (simp add: image_iff Bex_def)
  then show ?thesis unfolding close_def in_close by blast
qed

lemma in_interface_b:
  "r \<in> set (snd (identify_interface_residues chain_a_atoms chain_b_atoms cutoff)) \<longleftrightarrow>
     (\<exists>res_a xa ya za xb yb zb. (res_a, xa, ya, za) \<in> set chain_a_atoms \<and>
        (r, xb, yb, zb) \<in> set chain_b_atoms \<and>
        sqrt ((xa - xb)\<^sup>2 + (ya - yb)\<^sup>2 + (za - zb)\<^sup>2) < cutoff)"
proof -
  define close where "close = [(res_a, res_b).
                     (res_a, xa, ya, za) \<leftarrow> chain_a_atoms,
                     (res_b, xb, yb, zb) \<leftarrow> chain_b_atoms,
                     sqrt ((xa - xb)\<^sup>2 + (ya - yb)\<^sup>2 + (za - zb)\<^sup>2) < cutoff]"
  have "snd (identify_interface_residues chain_a_atoms chain_b_atoms cutoff)
          = sorted_list_of_set (set (map snd close))"
    unfolding identify_interface_residues_def Let_def close_def by (rule snd_conv)
  then have "r \<in> set (snd (identify_interface_residues chain_a_atoms chain_b_atoms cutoff)) \<longleftrightarrow>
        (\<exists>ra. (ra, r) \<in> set close)"
    by (simp add: image_iff Bex_def)
  then show ?thesis unfolding close_def in_close by blast
qed

lemma in_find_interface_contacts_euclid:
  "c \<in> set (find_interface_contacts ((chain_a, residues_a) # (chain_b, residues_b) # rest) cutoff) \<longleftrightarrow>
     (\<exists>r1 as1 a1 x1 y1 z1 r2 as2 a2 x2 y2 z2.
        c = \<lparr>chain1 = chain_a, res1 = r1, atom1 = a1, chain2 = chain_b, res2 = r2, atom2 = a2,
             distance = sqrt ((x1 - x2)\<^sup>2 + (y1 - y2)\<^sup>2 + (z1 - z2)\<^sup>2)\<rparr> \<and>
        (r1, as1) \<in> set residues_a \<and> (a1, (x1, y1, z1)) \<in> set as1 \<and>
        a1 \<in> {''CA'', ''CB'', ''N'', ''C'', ''O''} \<and>
        (r2, as2) \<in> set residues_b \<and> (a2, (x2, y2, z2)) \<in> set as2 \<and>
        a2 \<in> {''CA'', ''CB'', ''N'', ''C'', ''O''} \<and>
        sqrt ((x1 - x2)\<^sup>2 + (y1 - y2)\<^sup>2 + (z1 - z2)\<^sup>2) < cutoff)"
  (is "?L \<longleftrightarrow> ?R")
proof
  assume ?L
  then obtain r1 as1 a1 p1 r2 as2 a2 p2 where
    h: "c = \<lparr>chain1 = chain_a, res1 = r1, atom1 = a1, chain2 = chain_b, res2 = r2, atom2 = a2,
             distance = calculate_distance p1 p2\<rparr>"
      "(r1, as1) \<in> set residues_a" "(a1, p1) \<in> set as1" "a1 \<in> set backbone"
      "(r2, as2) \<in> set residues_b" "(a2, p2) \<in> set as2" "a2 \<in> set backbone"
      "calculate_distance p1 p2 < cutoff"
    unfolding in_find_interface_contacts by blast
  obtain x1 y1 z1 x2 y2 z2 where p: "p1 = (x1, y1, z1)" "p2 = (x2, y2, z2)"
    by (metis prod_cases3)
  have b: "a1 \<in> {''CA'', ''CB'', ''N'', ''C'', ''O''}" "a2 \<in> {''CA'', ''CB'', ''N'', ''C'', ''O''}"
    using h(4,7) unfolding backbone_def by simp_all
  show ?R
    apply (rule exI [of _ r1], rule exI [of _ as1], rule exI [of _ a1])
    apply (rule exI [of _ x1], rule exI [of _ y1], rule exI [of _ z1])
    apply (rule exI [of _ r2], rule exI [of _ as2], rule exI [of _ a2])
    apply (rule exI [of _ x2], rule exI [of _ y2], rule exI [of _ z2])
    using h b unfolding p by simp
next
  assume ?R
  then obtain r1 as1 a1 x1 y1 z1 r2 as2 a2 x2 y2 z2 where
    h: "c = \<lparr>chain1 = chain_a, res1 = r1, atom1 = a1, chain2 = chain_b, res2 = r2, atom2 = a2,
             distance = sqrt ((x1 - x2)\<^sup>2 + (y1 - y2)\<^sup>2 + (z1 - z2)\<^sup>2)\<rparr>"
      "(r1, as1) \<in> set residues_a" "(a1, (x1, y1, z1)) \<in> set as1"
      "a1 \<in> {''CA'', ''CB'', ''N'', ''C'', ''O''}"
      "(r2, as2) \<in> set residues_b" "(a2, (x2, y2, z2)) \<in> set as2"
      "a2 \<in> {''CA'', ''CB'', ''N'', ''C'', ''O''}"
      "sqrt ((x1 - x2)\<^sup>2 + (y1 - y2)\<^sup>2 + (z1 - z2)\<^sup>2) < cutoff"
    by blast
  have b: "a1 \<in> set backbone" "a2 \<in> set backbone"
    using h(4,7) unfolding backbone_def by simp_all
  have d: "calculate_distance (x1, y1, z1) (x2, y2, z2)
             = sqrt ((x1 - x2)\<^sup>2 + (y1 - y2)\<^sup>2 + (z1 - z2)\<^sup>2)" by simp
  show ?L
    unfolding in_find_interface_contacts
    apply (rule exI [of _ r1], rule exI [of _ as1], rule exI [of _ a1], rule exI [of _ "(x1, y1, z1)"])
    apply (rule exI [of _ r2], rule exI [of _ as2], rule exI [of _ a2], rule exI [of _ "(x2, y2, z2)"])
    unfolding d using h b by simp
qed

lemma sqrt_9: "sqrt 9 = 3"
  by (rule real_sqrt_unique) simp_all

text \<open>
  C9. The contacts returned for the first two chains are exactly the pairs of their
  backbone atoms whose Euclidean distance, the square root of the sum of the squared
  coordinate differences, is strictly below the cutoff, each with its labels and that
  distance; a larger cutoff returns a superset. The same holds for the residue numbers
  returned by \<open>identify_interface_residues\<close>.
\<close>

theorem contact_cutoff_semantics:
  "set (find_interface_contacts ((chain_a, residues_a) # (chain_b, residues_b) # rest) cutoff) =
     {\<lparr>chain1 = chain_a, res1 = r1, atom1 = a1, chain2 = chain_b, res2 = r2, atom2 = a2,
       distance = sqrt ((x1 - x2)\<^sup>2 + (y1 - y2)\<^sup>2 + (z1 - z2)\<^sup>2)\<rparr>
      | r1 as1 a1 x1 y1 z1 r2 as2 a2 x2 y2 z2.
        (r1, as1) \<in> set residues_a \<and> (a1, (x1, y1, z1)) \<in> set as1 \<and>
        a1 \<in> {''CA'', ''CB'', ''N'', ''C'', ''O''} \<and>
        (r2, as2) \<in> set residues_b \<and> (a2, (x2, y2, z2)) \<in> set as2 \<and>
        a2 \<in> {''CA'', ''CB'', ''N'', ''C'', ''O''} \<and>
        sqrt ((x1 - x2)\<^sup>2 + (y1 - y2)\<^sup>2 + (z1 - z2)\<^sup>2) < cutoff}
   \<and> (cutoff1 < cutoff2 \<longrightarrow>
        set (find_interface_contacts coords cutoff1) \<subseteq> set (find_interface_contacts coords cutoff2))
   \<and> (r \<in> set (fst (identify_interface_residues chain_a_atoms chain_b_atoms cutoff)) \<longleftrightarrow>
        (\<exists>xa ya za res_b xb yb zb. (r, xa, ya, za) \<in> set chain_a_atoms \<and>
           (res_b, xb, yb, zb) \<in> set chain_b_atoms \<and>
           sqrt ((xa - xb)\<^sup>2 + (ya - yb)\<^sup>2 + (za - zb)\<^sup>2) < cutoff))
   \<and> (r \<in> set (snd (identify_interface_residues chain_a_atoms chain_b_atoms cutoff)) \<longleftrightarrow>
        (\<exists>res_a xa ya za xb yb zb. (res_a, xa, ya, za) \<in> set chain_a_atoms \<and>
           (r, xb, yb, zb) \<in> set chain_b_atoms \<and>
           sqrt ((xa - xb)\<^sup>2 + (ya - yb)\<^sup>2 + (za - zb)\<^sup>2) < cutoff))
   \<and> (cutoff1 < cutoff2 \<longrightarrow>
        set (fst (identify_interface_residues chain_a_atoms chain_b_atoms cutoff1))
          \<subseteq> set (fst (identify_interface_residues chain_a_atoms chain_b_atoms cutoff2)) \<and>
        set (snd (identify_interface_residues chain_a_atoms chain_b_atoms cutoff1))
          \<subseteq> set (snd (identify_interface_residues chain_a_atoms chain_b_atoms cutoff2)))"
proof (intro conjI impI)
  show "set (find_interface_contacts ((chain_a, residues_a) # (chain_b, residues_b) # rest) cutoff) =
     {\<lparr>chain1 = chain_a, res1 = r1, atom1 = a1, chain2 = chain_b, res2 = r2, atom2 = a2,
       distance = sqrt ((x1 - x2)\<^sup>2 + (y1 - y2)\<^sup>2 + (z1 - z2)\<^sup>2)\<rparr>
      | r1 as1 a1 x1 y1 z1 r2 as2 a2 x2 y2 z2.
        (r1, as1) \<in> set residues_a \<and> (a1, (x1, y1, z1)) \<in> set as1 \<and>
        a1 \<in> {''CA'', ''CB'', ''N'', ''C'', ''O''} \<and>
        (r2, as2) \<in> set residues_b \<and> (a2, (x2, y2, z2)) \<in> set as2 \<and>
        a2 \<in> {''CA'', ''CB'', ''N'', ''C'', ''O''} \<and>
        sqrt ((x1 - x2)\<^sup>2 + (y1 - y2)\<^sup>2 + (z1 - z2)\<^sup>2) < cutoff}"
    by (rule set_eqI) (simp only: in_find_interface_contacts_euclid mem_Collect_eq)
next
  assume "cutoff1 < cutoff2"
  then show "set (find_interface_contacts coords cutoff1) \<subseteq> set (find_interface_contacts coords cutoff2)"
    by (intro find_interface_contacts_mono) simp
next
  show "r \<in> set (fst (identify_interface_residues chain_a_atoms chain_b_atoms cutoff)) \<longleftrightarrow>
        (\<exists>xa ya za res_b xb yb zb. (r, xa, ya, za) \<in> set chain_a_atoms \<and>
           (res_b, xb, yb, zb) \<in> set chain_b_atoms \<and>
           sqrt ((xa - xb)\<^sup>2 + (ya - yb)\<^sup>2 + (za - zb)\<^sup>2) < cutoff)"
    by (rule in_interface_a)
next
  show "r \<in> set (snd (identify_interface_residues chain_a_atoms chain_b_atoms cutoff)) \<longleftrightarrow>
        (\<exists>res_a xa ya za xb yb zb. (res_a, xa, ya, za) \<in> set chain_a_atoms \<and>
           (r, xb, yb, zb) \<in> set chain_b_atoms \<and>
           sqrt ((xa - xb)\<^sup>2 + (ya - yb)\<^sup>2 + (za - zb)\<^sup>2) < cutoff)"
    by (rule in_interface_b)
next
  assume lt: "cutoff1 < cutoff2"
  show "set (fst (identify_interface_residues chain_a_atoms chain_b_atoms cutoff1))
          \<subseteq> set (fst (identify_interface_residues chain_a_atoms chain_b_atoms cutoff2))"
  proof
    fix x assume "x \<in> set (fst (identify_interface_residues chain_a_atoms chain_b_atoms cutoff1))"
    then obtain xa ya za res_b xb yb zb where "(x, xa, ya, za) \<in> set chain_a_atoms"
      "(res_b, xb, yb, zb) \<in> set chain_b_atoms"
      "sqrt ((xa - xb)\<^sup>2 + (ya - yb)\<^sup>2 + (za - zb)\<^sup>2) < cutoff1"
      unfolding in_interface_a by blast
    moreover from this lt have "sqrt ((xa - xb)\<^sup>2 + (ya - yb)\<^sup>2 + (za - zb)\<^sup>2) < cutoff2"
      by simp
    ultimately show "x \<in> set (fst (identify_interface_residues chain_a_atoms chain_b_atoms cutoff2))"
      unfolding in_interface_a by blast
  qed
next
  assume lt: "cutoff1 < cutoff2"
  show "set (snd (identify_interface_residues chain_a_atoms chain_b_atoms cutoff1))
          \<subseteq> set (snd (identify_interface_residues chain_a_atoms chain_b_atoms cutoff2))"
  proof
    fix x assume "x \<in> set (snd (identify_interface_residues chain_a_atoms chain_b_atoms cutoff1))"
    then obtain res_a xa ya za xb yb zb where "(res_a, xa, ya, za) \<in> set chain_a_atoms"
      "(x, xb, yb, zb) \<in> set chain_b_atoms"
      "sqrt ((xa - xb)\<^sup>2 + (ya - yb)\<^sup>2 + (za - zb)\<^sup>2) < cutoff1"
      unfolding in_interface_b by blast
    moreover from this lt have "sqrt ((xa - xb)\<^sup>2 + (ya - yb)\<^sup>2 + (za - zb)\<^sup>2) < cutoff2"
      by simp
    ultimately show "x \<in> set (snd (identify_interface_residues chain_a_atoms chain_b_atoms cutoff2))"
      unfolding in_interface_b by blast
  qed
qed

lemma ca_eval:
  "find_interface_contacts
      [(''A'', [(1, [(''CA'', (0, 0, 0))])]), (''B'', [(1, [(''CA'', (0, 0, 3))])])] c
   = (if 3 < c then [\<lparr>chain1 = ''A'', res1 = 1, atom1 = ''CA'', chain2 = ''B'', res2 = 1,
                       atom2 = ''CA'', distance = 3\<rparr>] else [])"
  by (simp add: find_interface_contacts_def backbone_def sqrt_9)

theorem contact_cutoff_semantics_witness:
  "(2::real) < 5 \<and>
   set (find_interface_contacts
          [(''A'', [(1, [(''CA'', (0, 0, 0))])]), (''B'', [(1, [(''CA'', (0, 0, 3))])])] 2)
     \<subseteq> set (find_interface_contacts
          [(''A'', [(1, [(''CA'', (0, 0, 0))])]), (''B'', [(1, [(''CA'', (0, 0, 3))])])] 5) \<and>
   find_interface_contacts
          [(''A'', [(1, [(''CA'', (0, 0, 0))])]), (''B'', [(1, [(''CA'', (0, 0, 3))])])] 5
     = [\<lparr>chain1 = ''A'', res1 = 1, atom1 = ''CA'', chain2 = ''B'', res2 = 1, atom2 = ''CA'',
         distance = 3\<rparr>] \<and>
   find_interface_contacts
          [(''A'', [(1, [(''CA'', (0, 0, 0))])]), (''B'', [(1, [(''CA'', (0, 0, 3))])])] 3 = [] \<and>
   find_interface_contacts
          [(''A'', [(1, [(''CA'', (0, 0, 0))])]), (''B'', [(1, [(''CA'', (0, 0, 3))])])] 2 = []"
proof -
  have h: "(2::real) < 5" by simp
  have "set (find_interface_contacts
          [(''A'', [(1, [(''CA'', (0, 0, 0))])]), (''B'', [(1, [(''CA'', (0, 0, 3))])])] 2)
     \<subseteq> set (find_interface_contacts
          [(''A'', [(1, [(''CA'', (0, 0, 0))])]), (''B'', [(1, [(''CA'', (0, 0, 3))])])] 5)"
    by (rule contact_cutoff_semantics [where ?cutoff1.0 = 2 and ?cutoff2.0 = 5
        and coords = "[(''A'', [(1, [(''CA'', (0, 0, 0))])]), (''B'', [(1, [(''CA'', (0, 0, 3))])])]",
        THEN conjunct2, THEN conjunct1, THEN mp, OF h])
  then show ?thesis using h by (simp add: ca_eval)
qed

text \<open>
  C10. Every contact returned by \<open>find_interface_contacts\<close> has both atom names among
  CA, CB, N, C and O and joins a residue of the first chain with a residue of the second;
  chains after the second do not influence the result; and with fewer than two chains the
  result is the empty list.
\<close>

theorem contact_filter_invariant:
  "(c \<in> set (find_interface_contacts coords cutoff) \<longrightarrow>
      atom1 c \<in> {''CA'', ''CB'', ''N'', ''C'', ''O''} \<and>
      atom2 c \<in> {''CA'', ''CB'', ''N'', ''C'', ''O''} \<and>
      (\<exists>chain_a residues_a chain_b residues_b rest atoms1 coord1 atoms2 coord2.
          coords = (chain_a, residues_a) # (chain_b, residues_b) # rest \<and>
          chain1 c = chain_a \<and> chain2 c = chain_b \<and>
          (res1 c, atoms1) \<in> set residues_a \<and> (atom1 c, coord1) \<in> set atoms1 \<and>
          (res2 c, atoms2) \<in> set residues_b \<and> (atom2 c, coord2) \<in> set atoms2 \<and>
          distance c = calculate_distance coord1 coord2))
   \<and> find_interface_contacts (entry_a # entry_b # later_chains) cutoff
       = find_interface_contacts [entry_a, entry_b] cutoff
   \<and> (length coords < 2 \<longrightarrow> find_interface_contacts coords cutoff = [])"
proof (intro conjI impI)
  assume c: "c \<in> set (find_interface_contacts coords cutoff)"
  then have "\<not> length coords < 2" using find_interface_contacts_short [of coords cutoff] by auto
  then obtain chain_a residues_a chain_b residues_b rest
    where co: "coords = (chain_a, residues_a) # (chain_b, residues_b) # rest"
    by (rule coords_two)
  from c obtain r1 as1 a1 p1 r2 as2 a2 p2 where
      x: "c = \<lparr>chain1 = chain_a, res1 = r1, atom1 = a1, chain2 = chain_b, res2 = r2, atom2 = a2,
             distance = calculate_distance p1 p2\<rparr>"
      and h: "(r1, as1) \<in> set residues_a" "(a1, p1) \<in> set as1" "a1 \<in> set backbone"
      "(r2, as2) \<in> set residues_b" "(a2, p2) \<in> set as2" "a2 \<in> set backbone"
      unfolding co in_find_interface_contacts by blast
  show "atom1 c \<in> {''CA'', ''CB'', ''N'', ''C'', ''O''}" using h(3) unfolding x backbone_def by simp
  show "atom2 c \<in> {''CA'', ''CB'', ''N'', ''C'', ''O''}" using h(6) unfolding x backbone_def by simp
  show "\<exists>chain_a residues_a chain_b residues_b rest atoms1 coord1 atoms2 coord2.
          coords = (chain_a, residues_a) # (chain_b, residues_b) # rest \<and>
          chain1 c = chain_a \<and> chain2 c = chain_b \<and>
          (res1 c, atoms1) \<in> set residues_a \<and> (atom1 c, coord1) \<in> set atoms1 \<and>
          (res2 c, atoms2) \<in> set residues_b \<and> (atom2 c, coord2) \<in> set atoms2 \<and>
          distance c = calculate_distance coord1 coord2"
    apply (intro exI conjI)
           apply (rule co)
    using h unfolding x by simp_all
next
  show "find_interface_contacts (entry_a # entry_b # later_chains) cutoff
       = find_interface_contacts [entry_a, entry_b] cutoff"
    by (rule find_interface_contacts_rest)
next
  assume "length coords < 2"
  then show "find_interface_contacts coords cutoff = []"
    by (rule find_interface_contacts_short)
qed

lemma three_chains_eval:
  "find_interface_contacts
     [(''A'', [(1, [(''CA'', (0, 0, 0)), (''CG'', (0, 0, 1))])]),
      (''B'', [(7, [(''CG'', (0, 0, 1)), (''CA'', (0, 0, 3))])]),
      (''C'', [(9, [(''CA'', (0, 0, 1))])])] 5
   = [\<lparr>chain1 = ''A'', res1 = 1, atom1 = ''CA'', chain2 = ''B'', res2 = 7, atom2 = ''CA'',
        distance = 3\<rparr>]"
  by (simp add: find_interface_contacts_def backbone_def sqrt_9)

theorem contact_filter_invariant_witness:
  "\<lparr>chain1 = ''A'', res1 = 1, atom1 = ''CA'', chain2 = ''B'', res2 = 7, atom2 = ''CA'',
        distance = 3\<rparr>
     \<in> set (find_interface_contacts
         [(''A'', [(1, [(''CA'', (0, 0, 0)), (''CG'', (0, 0, 1))])]),
          (''B'', [(7, [(''CG'', (0, 0, 1)), (''CA'', (0, 0, 3))])]),
          (''C'', [(9, [(''CA'', (0, 0, 1))])])] 5)
   \<and> atom1 \<lparr>chain1 = ''A'', res1 = 1, atom1 = ''CA'', chain2 = ''B'', res2 = 7, atom2 = ''CA'',
        distance = 3\<rparr> \<in> {''CA'', ''CB'', ''N'', ''C'', ''O''}
   \<and> length [(''A'', [(1::int, [(''CA'', (0::real, 0::real, 0::real))])])] < 2
   \<and> find_interface_contacts [(''A'', [(1, [(''CA'', (0, 0, 0))])])] 5 = []"
proof -
  have m: "\<lparr>chain1 = ''A'', res1 = 1, atom1 = ''CA'', chain2 = ''B'', res2 = 7, atom2 = ''CA'',
        distance = 3\<rparr>
     \<in> set (find_interface_contacts
         [(''A'', [(1, [(''CA'', (0, 0, 0)), (''CG'', (0, 0, 1))])]),
          (''B'', [(7, [(''CG'', (0, 0, 1)), (''CA'', (0, 0, 3))])]),
          (''C'', [(9, [(''CA'', (0, 0, 1))])])] 5)"
    by (simp add: three_chains_eval)
  have l: "length [(''A'', [(1::int, [(''CA'', (0::real, 0::real, 0::real))])])] < 2" by simp
  have a: "atom1 \<lparr>chain1 = ''A'', res1 = 1, atom1 = ''CA'', chain2 = ''B'', res2 = 7, atom2 = ''CA'',
        distance = 3\<rparr> \<in> {''CA'', ''CB'', ''N'', ''C'', ''O''}"
    by (rule contact_filter_invariant [THEN conjunct1, THEN mp, OF m, THEN conjunct1])
  have "find_interface_contacts [(''A'', [(1, [(''CA'', (0, 0, 0))])])] 5 = []"
    by (rule contact_filter_invariant [THEN conjunct2, THEN conjunct2, THEN mp, OF l])
  with m a l show ?thesis by blast
qed

end
